theory Spec2Isabelle
  imports Complex_Main "HOL-Library.Sublist"
begin

section \<open>nanoCAD: the line parser of nanocad.c\<close>

text \<open>
  A shallow embedding of the parsing core of \<^verbatim>\<open>src/nanocad.c\<close>: \<^verbatim>\<open>to_base_unit\<close>,
  \<^verbatim>\<open>calc_coordinate\<close>, \<^verbatim>\<open>parse_coordinates\<close>, \<^verbatim>\<open>parse_line\<close>, \<^verbatim>\<open>chomp\<close>,
  \<^verbatim>\<open>is_obj_command\<close>, \<^verbatim>\<open>set_variable\<close>, \<^verbatim>\<open>create_object\<close> and \<^verbatim>\<open>parse_command\<close>.

  C strings are \<open>string\<close>s without the terminating NUL. The two global containers are a
  state record that every function takes and returns. A call of \<^verbatim>\<open>exit(EXIT_FAILURE)\<close> is
  \<open>Inl\<close> of the \<open>Exit\<close> error of its message; an out-of-bounds write or a read of
  memory that was never written is \<open>Inl Undefined\<close>.
\<close>

subsection \<open>What nanocad.h and the C library provide\<close>

text \<open>
  The header \<^verbatim>\<open>nanocad.h\<close> is not among the sources, so the buffer sizes it defines are
  parameters. The \<^verbatim>\<open>double\<close> arithmetic of the C library and of the platform is a
  parameter as well: \<open>atof\<close> is the library function, \<open>mul_double d k\<close> is the product
  \<^verbatim>\<open>d * k\<close> of a double and an integer constant, \<open>to_long\<close> is the cast \<^verbatim>\<open>(long)d\<close>, which
  has no defined result (\<open>None\<close>) when the truncated value does not fit a \<^verbatim>\<open>long\<close>, and
  \<open>LONG_BITS\<close> is the width of \<^verbatim>\<open>long\<close>. \<open>TYPE_LINE\<close> is the header's object type
  constant and \<open>SIZE_MAX\<close> the largest \<^verbatim>\<open>size_t\<close>. The array \<^verbatim>\<open>valid_objects\<close> of
  \<^verbatim>\<open>nanocad.c\<close> holds the keyword \<^verbatim>\<open>"circle"\<close> in \<^verbatim>\<open>COMMAND_MAX_SIZE\<close> bytes, so the header's
  value is at least 6.

  Input strings are C strings: they hold no NUL character. Bytes above 127 are in none
  of the character classes below, whether \<^verbatim>\<open>char\<close> is signed or not.
\<close>

record 'd config =
  COMMAND_MAX_SIZE :: nat
  ARGUMENT_MAX_SIZE :: nat
  ARGUMENT_ARRAY_MAX_SIZE :: nat
  VARIABLE_MAX_SIZE :: nat
  TYPE_LINE :: int
  LONG_BITS :: nat
  SIZE_MAX :: nat
  atof :: "string \<Rightarrow> 'd"
  mul_double :: "'d \<Rightarrow> int \<Rightarrow> 'd"
  to_long :: "'d \<Rightarrow> int option"

datatype error =
    Undefined
  | Implementation_Defined
  | Exit_Invalid_Number_Char char
  | Exit_Invalid_Unit_Char char
  | Exit_Invalid_Unit string
  | Exit_Unknown_First_Coordinate_Letter char
  | Exit_Unknown_Next_Argument char
  | Exit_Invalid_Coordinate_Operation char
  | Exit_Object_Index
  | Exit_Invalid_Variable_Type char string

text \<open>The line parsing stage definitions (the \<^verbatim>\<open>PARSING_*\<close> macros).\<close>

datatype stage =
    PARSING_START
  | PARSING_COMMAND
  | PARSING_ARGUMENTS
  | PARSING_COORDX
  | PARSING_COORDY
  | PARSING_WIDTH
  | PARSING_HEIGHT
  | PARSING_NUMBER
  | PARSING_UNIT
  | PARSING_SET_OBJVAR

subsection \<open>Writing into a fixed buffer\<close>

text \<open>
  \<^verbatim>\<open>buf[pos++] = c; buf[pos] = '\0';\<close> on a buffer of \<open>sz\<close> bytes whose position counter
  wraps at \<open>wrap\<close> (256 for a \<^verbatim>\<open>uint8_t\<close>, 65536 for a \<^verbatim>\<open>uint16_t\<close>). \<open>buf\<close> is the C string
  in the buffer before the write, and \<open>pos\<close> is at most its length. Both writes must be
  inside the buffer. The result is the C string in the buffer afterwards and the new
  position; when the counter wraps, the NUL lands on index 0 and the string is empty.
\<close>

definition put :: "nat \<Rightarrow> nat \<Rightarrow> string \<Rightarrow> nat \<Rightarrow> char \<Rightarrow> error + (string \<times> nat)" where
  "put wrap sz buf pos c =
     (let pos' = (pos + 1) mod wrap
      in if pos < sz \<and> pos' < sz
         then Inr (take pos' (take pos buf @ [c]), pos')
         else Inl Undefined)"

subsection \<open>to_base_unit\<close>

definition is_number_char :: "char \<Rightarrow> bool" where
  "is_number_char c =
     (((0x30::nat) \<le> of_char c \<and> of_char c \<le> (0x39::nat)) \<or>
      ((0x2B::nat) \<le> of_char c \<and> of_char c \<le> (0x2E::nat)))"

definition is_letter :: "char \<Rightarrow> bool" where
  "is_letter c = ((0x61::nat) \<le> of_char c \<and> of_char c \<le> (0x7A::nat))"

text \<open>
  The scanning loop of \<^verbatim>\<open>to_base_unit\<close>. \<open>strnum\<close> is \<open>None\<close> until its first byte is
  written: the C array is not initialised. \<open>unit\<close> is \<^verbatim>\<open>char unit[3]\<close>.
\<close>

fun to_base_unit_loop ::
  "'d config \<Rightarrow> stage \<Rightarrow> nat \<Rightarrow> string option \<Rightarrow> string \<Rightarrow> string
     \<Rightarrow> error + (string option \<times> string)" where
  "to_base_unit_loop cfg stg cur_pos strnum unit [] = Inr (strnum, unit)"
| "to_base_unit_loop cfg stg cur_pos strnum unit (c # str) =
     (case stg of
        PARSING_NUMBER \<Rightarrow>
          (if is_number_char c then
             (case put 256 (ARGUMENT_MAX_SIZE cfg) (case strnum of None \<Rightarrow> [] | Some s \<Rightarrow> s) cur_pos c of
                Inl e \<Rightarrow> Inl e
              | Inr (s, p) \<Rightarrow> to_base_unit_loop cfg PARSING_NUMBER p (Some s) unit str)
           else if is_letter c then
             (case put 256 3 unit 0 c of
                Inl e \<Rightarrow> Inl e
              | Inr (u, p) \<Rightarrow> to_base_unit_loop cfg PARSING_UNIT p strnum u str)
           else Inl (Exit_Invalid_Number_Char c))
      | PARSING_UNIT \<Rightarrow>
          (if is_letter c then
             (case put 256 3 unit cur_pos c of
                Inl e \<Rightarrow> Inl e
              | Inr (u, p) \<Rightarrow> to_base_unit_loop cfg PARSING_UNIT p strnum u str)
           else Inl (Exit_Invalid_Unit_Char c))
      | _ \<Rightarrow> to_base_unit_loop cfg stg cur_pos strnum unit str)"

definition long_cast :: "'d config \<Rightarrow> 'd \<Rightarrow> error + int" where
  "long_cast cfg d = (case to_long cfg d of None \<Rightarrow> Inl Undefined | Some n \<Rightarrow> Inr n)"

definition to_base_unit :: "'d config \<Rightarrow> string \<Rightarrow> error + int" where
  "to_base_unit cfg str =
     (case to_base_unit_loop cfg PARSING_NUMBER 0 None [] str of
        Inl e \<Rightarrow> Inl e
      | Inr (strnum, unit) \<Rightarrow>
          (case strnum of
             None \<Rightarrow> Inl Undefined
           | Some s \<Rightarrow>
               (let orig = atof cfg s
                in if unit = [] then long_cast cfg orig
                   else if unit = ''m'' then long_cast cfg (mul_double cfg orig 1000)
                   else if unit = ''cm'' then long_cast cfg (mul_double cfg orig 10)
                   else if unit = ''mm'' then long_cast cfg orig
                   else Inl (Exit_Invalid_Unit unit))))"

subsection \<open>Coordinates\<close>

record coord_t =
  X :: int
  Y :: int

text \<open>A \<^verbatim>\<open>long\<close> holds the integers of \<open>LONG_BITS\<close> bits; a signed sum outside has no
  defined result.\<close>

definition in_long :: "'d config \<Rightarrow> int \<Rightarrow> bool" where
  "in_long cfg n = (- (2 ^ (LONG_BITS cfg - 1)) \<le> n \<and> n < 2 ^ (LONG_BITS cfg - 1))"

definition long_add :: "'d config \<Rightarrow> int \<Rightarrow> int \<Rightarrow> error + int" where
  "long_add cfg a b = (if in_long cfg (a + b) then Inr (a + b) else Inl Undefined)"

definition calc_coordinate :: "'d config \<Rightarrow> char \<Rightarrow> coord_t \<Rightarrow> coord_t \<Rightarrow> error + coord_t" where
  "calc_coordinate cfg oper base coord =
     (if oper = CHR ''w'' then
        (case long_add cfg (X coord) (X base) of
           Inl e \<Rightarrow> Inl e
         | Inr v \<Rightarrow> Inr \<lparr>X = v, Y = Y base\<rparr>)
      else if oper = CHR ''h'' then
        (case long_add cfg (Y coord) (Y base) of
           Inl e \<Rightarrow> Inl e
         | Inr v \<Rightarrow> Inr \<lparr>X = X base, Y = v\<rparr>)
      else Inl (Exit_Invalid_Coordinate_Operation oper))"

text \<open>
  The scanning loop of \<^verbatim>\<open>parse_coordinates\<close>. \<open>coord_x\<close> and \<open>coord_y\<close> are buffers of
  \<^verbatim>\<open>ARGUMENT_MAX_SIZE\<close> bytes, both holding \<^verbatim>\<open>"0"\<close> at the start; \<open>cur_pos\<close> is a
  \<^verbatim>\<open>uint8_t\<close>; \<open>operation\<close> starts as the NUL character. The loop writes without a bounds
  check.
\<close>

fun parse_coordinates_loop ::
  "'d config \<Rightarrow> stage \<Rightarrow> nat \<Rightarrow> char \<Rightarrow> string \<Rightarrow> string \<Rightarrow> string
     \<Rightarrow> error + (char \<times> string \<times> string)" where
  "parse_coordinates_loop cfg stg cur_pos operation coord_x coord_y [] =
     Inr (operation, coord_x, coord_y)"
| "parse_coordinates_loop cfg stg cur_pos operation coord_x coord_y (c # arg) =
     (case stg of
        PARSING_START \<Rightarrow>
          (if c = CHR ''x'' then
             parse_coordinates_loop cfg PARSING_COORDX 0 operation coord_x coord_y arg
           else if c = CHR ''w'' \<or> c = CHR ''h'' then
             (if c = CHR ''w'' then
                parse_coordinates_loop cfg PARSING_WIDTH 0 c coord_x coord_y arg
              else
                parse_coordinates_loop cfg PARSING_HEIGHT 0 c coord_x coord_y arg)
           else Inl (Exit_Unknown_First_Coordinate_Letter c))
      | PARSING_COORDX \<Rightarrow>
          (if c = CHR '';'' then
             parse_coordinates_loop cfg PARSING_ARGUMENTS 0 operation coord_x coord_y arg
           else
             (case put 256 (ARGUMENT_MAX_SIZE cfg) coord_x cur_pos c of
                Inl e \<Rightarrow> Inl e
              | Inr (s, p) \<Rightarrow> parse_coordinates_loop cfg PARSING_COORDX p operation s coord_y arg))
      | PARSING_ARGUMENTS \<Rightarrow>
          (if c = CHR ''y'' then
             parse_coordinates_loop cfg PARSING_COORDY 0 operation coord_x coord_y arg
           else Inl (Exit_Unknown_Next_Argument c))
      | PARSING_COORDY \<Rightarrow>
          (case put 256 (ARGUMENT_MAX_SIZE cfg) coord_y cur_pos c of
             Inl e \<Rightarrow> Inl e
           | Inr (s, p) \<Rightarrow> parse_coordinates_loop cfg PARSING_COORDY p operation coord_x s arg)
      | PARSING_WIDTH \<Rightarrow>
          (case put 256 (ARGUMENT_MAX_SIZE cfg) coord_x cur_pos c of
             Inl e \<Rightarrow> Inl e
           | Inr (s, p) \<Rightarrow> parse_coordinates_loop cfg PARSING_WIDTH p operation s coord_y arg)
      | PARSING_HEIGHT \<Rightarrow>
          (case put 256 (ARGUMENT_MAX_SIZE cfg) coord_y cur_pos c of
             Inl e \<Rightarrow> Inl e
           | Inr (s, p) \<Rightarrow> parse_coordinates_loop cfg PARSING_HEIGHT p operation coord_x s arg)
      | _ \<Rightarrow> parse_coordinates_loop cfg stg cur_pos operation coord_x coord_y arg)"

text \<open>
  \<^verbatim>\<open>parse_coordinates(coord, arg, base)\<close>; \<open>base = None\<close> is the NULL pointer. The two
  initial writes \<^verbatim>\<open>coord_x[1] = '\0'\<close> need a buffer of two bytes.
\<close>

definition parse_coordinates :: "'d config \<Rightarrow> string \<Rightarrow> coord_t option \<Rightarrow> error + coord_t" where
  "parse_coordinates cfg arg base =
     (if ARGUMENT_MAX_SIZE cfg < 2 then Inl Undefined
      else
        (case parse_coordinates_loop cfg PARSING_START 0 (CHR 0x00) ''0'' ''0'' arg of
           Inl e \<Rightarrow> Inl e
         | Inr (operation, coord_x, coord_y) \<Rightarrow>
             (case to_base_unit cfg coord_x of
                Inl e \<Rightarrow> Inl e
              | Inr vx \<Rightarrow>
                  (case to_base_unit cfg coord_y of
                     Inl e \<Rightarrow> Inl e
                   | Inr vy \<Rightarrow>
                       (case base of
                          None \<Rightarrow> Inr \<lparr>X = vx, Y = vy\<rparr>
                        | Some b \<Rightarrow>
                            (if operation \<noteq> CHR 0x00
                             then calc_coordinate cfg operation b \<lparr>X = vx, Y = vy\<rparr>
                             else Inr \<lparr>X = vx, Y = vy\<rparr>))))))"

subsection \<open>chomp and parse_line\<close>

text \<open>\<^verbatim>\<open>isspace\<close> in the C locale: space, and the control characters 9 to 13.\<close>

definition isspace :: "char \<Rightarrow> bool" where
  "isspace c = (of_char c = (0x20::nat) \<or> ((0x09::nat) \<le> of_char c \<and> of_char c \<le> (0x0D::nat)))"

text \<open>
  \<^verbatim>\<open>chomp\<close> overwrites every whitespace character of the string with NUL, not only the
  trailing ones, so the C string that is left ends before the first of them.
\<close>

definition chomp :: "string \<Rightarrow> string" where
  "chomp str = takeWhile (\<lambda>c. \<not> isspace c) str"

text \<open>What \<^verbatim>\<open>parse_line\<close> returns: \<open>Failed\<close> is the return value -1, with the place
  that returned it; \<open>Parsed argc command arguments\<close> is a return value \<open>argc \<ge> 0\<close> with
  the two output parameters. \<open>arguments\<close> is the caller's array of
  \<^verbatim>\<open>ARGUMENT_ARRAY_MAX_SIZE\<close> pointers, \<open>None\<close> where nothing was stored.\<close>

datatype lex_error =
    Command_Limit_Exceeded
  | Argument_Count_Exceeded
  | Argument_Size_Exceeded
  | Unknown_First_Objvar_Char char
  | Unknown_Stage
  | No_Arguments_Part

datatype line_result =
    Failed lex_error
  | Parsed int string "string option list"

text \<open>\<^verbatim>\<open>arguments[i] = strdup(s)\<close> on the array of \<^verbatim>\<open>ARGUMENT_ARRAY_MAX_SIZE\<close> pointers.\<close>

definition store_argument :: "string option list \<Rightarrow> int \<Rightarrow> string \<Rightarrow> error + string option list" where
  "store_argument arguments i s =
     (if 0 \<le> i \<and> nat i < length arguments then Inr (arguments[nat i := Some s])
      else Inl Undefined)"

text \<open>\<^verbatim>\<open>command[pos] = c\<close>, where \<open>command\<close> holds the bytes written so far.\<close>

definition poke :: "string \<Rightarrow> nat \<Rightarrow> char \<Rightarrow> string" where
  "poke buf pos c = (if pos < length buf then buf[pos := c] else buf @ [c])"

text \<open>The end of \<^verbatim>\<open>parse_line\<close>, after the loop.\<close>

definition parse_line_finish ::
  "stage \<Rightarrow> int \<Rightarrow> string option \<Rightarrow> string \<Rightarrow> string option list \<Rightarrow> error + line_result" where
  "parse_line_finish stg argc cur_arg command arguments =
     (let argc' = (if stg = PARSING_SET_OBJVAR then argc + 1 else argc)
      in if argc' > 0 then
           (case cur_arg of
              None \<Rightarrow> Inl Undefined
            | Some a \<Rightarrow>
                (case store_argument arguments (argc' - 1) (chomp a) of
                   Inl e \<Rightarrow> Inl e
                 | Inr arguments' \<Rightarrow> Inr (Parsed argc' command arguments')))
         else if argc' < 0 then Inr (Failed No_Arguments_Part)
         else Inr (Parsed argc' command arguments))"

text \<open>
  The loop of \<^verbatim>\<open>parse_line\<close>. \<open>cur_cpos\<close> is a \<^verbatim>\<open>uint16_t\<close>; \<open>cur_arg\<close> is a buffer of
  \<^verbatim>\<open>ARGUMENT_MAX_SIZE\<close> bytes, not initialised (\<open>None\<close>) until it is first written;
  \<open>raw\<close> is the bytes written into \<open>command\<close> so far and \<open>command\<close> the C string it
  holds once the keyword has been terminated.
\<close>

fun parse_line_loop ::
  "'d config \<Rightarrow> stage \<Rightarrow> nat \<Rightarrow> int \<Rightarrow> string option \<Rightarrow> string \<Rightarrow> string
     \<Rightarrow> string option list \<Rightarrow> string \<Rightarrow> error + line_result" where
  "parse_line_loop cfg stg cur_cpos argc cur_arg raw command arguments [] =
     parse_line_finish stg argc cur_arg command arguments"
| "parse_line_loop cfg stg cur_cpos argc cur_arg raw command arguments (c # line) =
     (if c = CHR ''#'' then parse_line_finish stg argc cur_arg command arguments
      else
        (case stg of
           PARSING_COMMAND \<Rightarrow>
             (if c = CHR '' '' \<or> c = CHR 0x09 then
                parse_line_loop cfg PARSING_ARGUMENTS 0 0 cur_arg raw
                  (chomp (take cur_cpos raw)) arguments line
              else if cur_cpos + 1 < COMMAND_MAX_SIZE cfg then
                parse_line_loop cfg PARSING_COMMAND ((cur_cpos + 1) mod 65536) argc cur_arg
                  (poke raw cur_cpos c) command arguments line
              else Inr (Failed Command_Limit_Exceeded))
         | PARSING_ARGUMENTS \<Rightarrow>
             (if c = CHR '','' then
                (case cur_arg of
                   None \<Rightarrow> Inl Undefined
                 | Some a \<Rightarrow>
                     (case store_argument arguments (argc - 1) (chomp a) of
                        Inl e \<Rightarrow> Inl e
                      | Inr arguments' \<Rightarrow>
                          (if argc = int (ARGUMENT_ARRAY_MAX_SIZE cfg)
                           then Inr (Failed Argument_Count_Exceeded)
                           else parse_line_loop cfg PARSING_ARGUMENTS 0 argc (Some [])
                                  raw command arguments' line)))
              else if c = CHR '' '' \<or> c = CHR 0x09 then
                parse_line_loop cfg PARSING_ARGUMENTS cur_cpos argc cur_arg raw command arguments line
              else if c = CHR ''='' then
                (case cur_arg of
                   None \<Rightarrow> Inl Undefined
                 | Some a \<Rightarrow>
                     (case store_argument arguments (argc - 1) (chomp a) of
                        Inl e \<Rightarrow> Inl e
                      | Inr arguments' \<Rightarrow>
                          parse_line_loop cfg PARSING_SET_OBJVAR 0 argc (Some (chomp a))
                            raw command arguments' line))
              else
                (let argc' = (if cur_cpos = 0 then argc + 1 else argc)
                 in if cur_cpos + 1 < ARGUMENT_MAX_SIZE cfg then
                      (case put 65536 (ARGUMENT_MAX_SIZE cfg)
                              (case cur_arg of None \<Rightarrow> [] | Some a \<Rightarrow> a) cur_cpos c of
                         Inl e \<Rightarrow> Inl e
                       | Inr (a', p) \<Rightarrow>
                           parse_line_loop cfg PARSING_ARGUMENTS p argc' (Some a')
                             raw command arguments line)
                    else Inr (Failed Argument_Size_Exceeded)))
         | PARSING_SET_OBJVAR \<Rightarrow>
             (if cur_cpos = 0 then
                (if c \<noteq> CHR '' '' \<and> c \<noteq> CHR 0x09 \<and> c \<noteq> CHR ''&'' then
                   Inr (Failed (Unknown_First_Objvar_Char c))
                 else if c = CHR ''&'' then
                   (case put 65536 (ARGUMENT_MAX_SIZE cfg)
                           (case cur_arg of None \<Rightarrow> [] | Some a \<Rightarrow> a) cur_cpos c of
                      Inl e \<Rightarrow> Inl e
                    | Inr (a', p) \<Rightarrow>
                        parse_line_loop cfg PARSING_SET_OBJVAR p argc (Some a')
                          raw command arguments line)
                 else
                   parse_line_loop cfg PARSING_SET_OBJVAR cur_cpos argc cur_arg
                     raw command arguments line)
              else if c = CHR '' '' \<or> c = CHR 0x09 then
                parse_line_loop cfg PARSING_SET_OBJVAR cur_cpos argc cur_arg
                  raw command arguments line
              else
                (case put 65536 (ARGUMENT_MAX_SIZE cfg)
                        (case cur_arg of None \<Rightarrow> [] | Some a \<Rightarrow> a) cur_cpos c of
                   Inl e \<Rightarrow> Inl e
                 | Inr (a', p) \<Rightarrow>
                     parse_line_loop cfg PARSING_SET_OBJVAR p argc (Some a')
                       raw command arguments line))
         | _ \<Rightarrow> Inr (Failed Unknown_Stage)))"

text \<open>
  \<^verbatim>\<open>parse_line(line, command, arguments)\<close>. The first statement \<^verbatim>\<open>command[0] = '\0'\<close> needs
  a command buffer of one byte; \<open>arguments\<close> starts as an array of pointers that were
  never set.
\<close>

definition parse_line :: "'d config \<Rightarrow> string \<Rightarrow> error + line_result" where
  "parse_line cfg line =
     (if COMMAND_MAX_SIZE cfg = 0 then Inl Undefined
      else parse_line_loop cfg PARSING_COMMAND 0 (- 1) None [] []
             (replicate (ARGUMENT_ARRAY_MAX_SIZE cfg) None) line)"

subsection \<open>The stored structures\<close>

text \<open>
  An object as \<^verbatim>\<open>create_object\<close> fills it: the fields \<open>coord_count\<close> and \<open>coord\<close> are
  \<open>None\<close> when no statement has assigned them. A variable holds its type character, its
  name and the value its type selects.
\<close>

record object_t =
  obj_type :: nat
  coord_count :: "nat option"
  coord :: "coord_t list option"

datatype 'd var_value = Fixed_Value 'd | Coord_Value coord_t | Object_Index nat

record 'd variable_t =
  var_type :: char
  var_name :: string
  var_value :: "'d var_value"

record 'd state =
  objects :: "object_t list"
  variables :: "'d variable_t list"

definition nanocad_init :: "'d state" where
  "nanocad_init = \<lparr>objects = [], variables = []\<rparr>"

subsection \<open>set_variable\<close>

definition is_digit :: "char \<Rightarrow> bool" where
  "is_digit c = ((0x30::nat) \<le> of_char c \<and> of_char c \<le> (0x39::nat))"

definition digits_value :: "string \<Rightarrow> nat" where
  "digits_value ds = foldl (\<lambda>acc c. 10 * acc + (of_char c - 0x30)) 0 ds"

text \<open>
  \<^verbatim>\<open>sscanf(value, "%zu", &obj_index) == 1\<close>: leading whitespace is skipped, then an optional
  sign and the longest run of decimal digits are read, as \<^verbatim>\<open>strtoul\<close> does. \<open>Inr None\<close>
  is a conversion that matched nothing; a value above \<open>SIZE_MAX\<close> has no defined
  result; a minus sign negates in \<^verbatim>\<open>size_t\<close>.
\<close>

definition sscanf_zu :: "'d config \<Rightarrow> string \<Rightarrow> error + nat option" where
  "sscanf_zu cfg str =
     (let s = dropWhile isspace str;
          neg = (s \<noteq> [] \<and> hd s = CHR ''-'');
          body = (if s \<noteq> [] \<and> (hd s = CHR ''-'' \<or> hd s = CHR ''+'') then tl s else s);
          ds = takeWhile is_digit body
      in if ds = [] then Inr None
         else if digits_value ds > SIZE_MAX cfg then Inl Undefined
         else if neg then Inr (Some ((SIZE_MAX cfg + 1 - digits_value ds) mod (SIZE_MAX cfg + 1)))
         else Inr (Some (digits_value ds)))"

text \<open>
  \<^verbatim>\<open>set_variable(name, value)\<close>. With an empty \<open>name\<close> the statement \<^verbatim>\<open>*name++\<close> leaves
  the pointer behind the terminator and \<^verbatim>\<open>strdup\<close> reads from there.
\<close>

definition set_variable :: "'d config \<Rightarrow> 'd state \<Rightarrow> string \<Rightarrow> string \<Rightarrow> error + 'd state" where
  "set_variable cfg st name val =
     (case name of
        [] \<Rightarrow> Inl Undefined
      | t # name' \<Rightarrow>
          (case
             (if t = CHR ''$'' then Inr (Fixed_Value (atof cfg val))
              else if t = CHR ''@'' then
                (case parse_coordinates cfg val None of
                   Inl e \<Rightarrow> Inl e
                 | Inr c \<Rightarrow> Inr (Coord_Value c))
              else if t = CHR ''&'' then
                (case sscanf_zu cfg val of
                   Inl e \<Rightarrow> Inl e
                 | Inr None \<Rightarrow> Inl Exit_Object_Index
                 | Inr (Some i) \<Rightarrow> Inr (Object_Index i))
              else Inl (Exit_Invalid_Variable_Type t name'))
           of
             Inl e \<Rightarrow> Inl e
           | Inr v \<Rightarrow>
               Inr (st\<lparr>variables := variables st @ [\<lparr>var_type = t, var_name = name', var_value = v\<rparr>]\<rparr>)))"

subsection \<open>is_obj_command and create_object\<close>

definition valid_objects :: "string list" where
  "valid_objects = [''line'', ''rect'', ''circle'']"

fun is_obj_command_from :: "nat \<Rightarrow> string list \<Rightarrow> string \<Rightarrow> int" where
  "is_obj_command_from i [] command = - 1"
| "is_obj_command_from i (v # vs) command =
     (if command = v then int i + 1 else is_obj_command_from (i + 1) vs command)"

definition is_obj_command :: "string \<Rightarrow> int" where
  "is_obj_command command = is_obj_command_from 0 valid_objects command"

text \<open>Reading \<^verbatim>\<open>argv[i]\<close>: the index must be inside the array and the pointer must have
  been set.\<close>

definition argument :: "string option list \<Rightarrow> int \<Rightarrow> error + string" where
  "argument argv i =
     (if 0 \<le> i \<and> nat i < length argv
      then (case argv ! nat i of None \<Rightarrow> Inl Undefined | Some s \<Rightarrow> Inr s)
      else Inl Undefined)"

fun decimal :: "nat \<Rightarrow> string" where
  "decimal n =
     (if n < 10 then [char_of (0x30 + n)]
      else decimal (n div 10) @ [char_of (0x30 + n mod 10)])"

text \<open>\<^verbatim>\<open>snprintf(str_idx, VARIABLE_MAX_SIZE, "%lu", n)\<close>: the digits that fit, or nothing
  written at all when the size is 0.\<close>

definition snprintf_lu :: "nat \<Rightarrow> nat \<Rightarrow> string option" where
  "snprintf_lu sz n = (if sz = 0 then None else Some (take (sz - 1) (decimal n)))"

text \<open>The \<^verbatim>\<open>switch (type)\<close> of \<^verbatim>\<open>create_object\<close>: only \<^verbatim>\<open>TYPE_LINE\<close> has a case.\<close>

definition fill_object :: "'d config \<Rightarrow> int \<Rightarrow> string option list \<Rightarrow> error + object_t" where
  "fill_object cfg type argv =
     (if type = TYPE_LINE cfg then
        (case argument argv 0 of
           Inl e \<Rightarrow> Inl e
         | Inr a0 \<Rightarrow>
             (case parse_coordinates cfg a0 None of
                Inl e \<Rightarrow> Inl e
              | Inr c0 \<Rightarrow>
                  (case argument argv 1 of
                     Inl e \<Rightarrow> Inl e
                   | Inr a1 \<Rightarrow>
                       (case parse_coordinates cfg a1 (Some c0) of
                          Inl e \<Rightarrow> Inl e
                        | Inr c1 \<Rightarrow>
                            Inr \<lparr>obj_type = nat type mod 256, coord_count = Some 2,
                                 coord = Some [c0, c1]\<rparr>))))
      else Inr \<lparr>obj_type = nat type mod 256, coord_count = None, coord = None\<rparr>)"

text \<open>
  \<^verbatim>\<open>create_object(type, argc, argv)\<close>. The parameter \<open>argc\<close> is a \<^verbatim>\<open>char\<close>: a count
  above 127 is converted in an implementation-defined way, which the model does not
  follow.
\<close>

definition create_object ::
  "'d config \<Rightarrow> 'd state \<Rightarrow> int \<Rightarrow> int \<Rightarrow> string option list \<Rightarrow> error + 'd state" where
  "create_object cfg st type argc argv =
     (if argc > 127 then Inl Implementation_Defined
      else
        (case fill_object cfg type argv of
           Inl e \<Rightarrow> Inl e
         | Inr obj \<Rightarrow>
             (let st' = st\<lparr>objects := objects st @ [obj]\<rparr>
              in (case argument argv (argc - 1) of
                    Inl e \<Rightarrow> Inl e
                  | Inr last_arg \<Rightarrow>
                      (if last_arg \<noteq> [] \<and> hd last_arg = CHR ''&'' then
                         (case snprintf_lu (VARIABLE_MAX_SIZE cfg) (length (objects st') - 1) of
                            None \<Rightarrow> Inl Undefined
                          | Some str_idx \<Rightarrow> set_variable cfg st' last_arg str_idx)
                       else Inr st')))))"

subsection \<open>parse_command\<close>

definition parse_command :: "'d config \<Rightarrow> 'd state \<Rightarrow> string \<Rightarrow> error + (bool \<times> 'd state)" where
  "parse_command cfg st line =
     (if line = [] \<or> hd line = CHR ''#'' then Inr (True, st)
      else
        (case parse_line cfg line of
           Inl e \<Rightarrow> Inl e
         | Inr (Failed err) \<Rightarrow> Inr (False, st)
         | Inr (Parsed argc command argv) \<Rightarrow>
             (if is_obj_command command > 0 then
                (case create_object cfg st (is_obj_command command) argc argv of
                   Inl e \<Rightarrow> Inl e
                 | Inr st' \<Rightarrow> Inr (True, st'))
              else if command = ''set'' then
                (case argument argv 0 of
                   Inl e \<Rightarrow> Inl e
                 | Inr a0 \<Rightarrow>
                     (case argument argv 1 of
                        Inl e \<Rightarrow> Inl e
                      | Inr a1 \<Rightarrow>
                          (case set_variable cfg st a0 a1 of
                             Inl e \<Rightarrow> Inl e
                           | Inr st' \<Rightarrow> Inr (True, st'))))
              else Inr (False, st))))"

subsection \<open>The calls of a driver\<close>

text \<open>
  \<^verbatim>\<open>parse_command\<close> called on each line in turn, whatever the previous call returned,
  until a call ends the process. The result lists, for every line, what the call
  returned and the state it left.
\<close>

fun dispatch_all :: "'d config \<Rightarrow> 'd state \<Rightarrow> string list \<Rightarrow> error + (bool \<times> 'd state) list" where
  "dispatch_all cfg st [] = Inr []"
| "dispatch_all cfg st (l # ls) =
     (case parse_command cfg st l of
        Inl e \<Rightarrow> Inl e
      | Inr (ok, st') \<Rightarrow>
          (case dispatch_all cfg st' ls of
             Inl e \<Rightarrow> Inl e
           | Inr rs \<Rightarrow> Inr ((ok, st') # rs)))"

subsection \<open>An instance of the parameters\<close>

text \<open>
  An instance to evaluate the functions on: buffer sizes that hold the lines of the
  examples, a 64-bit \<^verbatim>\<open>long\<close> and \<^verbatim>\<open>size_t\<close>, and rational numbers in place of doubles.
  \<open>atof_decimal\<close> reads an optional sign, digits and an optional fraction, and agrees
  with the C library on the numerals of this form that a double holds exactly, which are
  the ones it is evaluated on below; the product and the cast are exact.
\<close>

definition atof_decimal :: "string \<Rightarrow> rat" where
  "atof_decimal str =
     (let s = dropWhile isspace str;
          neg = (s \<noteq> [] \<and> hd s = CHR ''-'');
          body = (if s \<noteq> [] \<and> (hd s = CHR ''-'' \<or> hd s = CHR ''+'') then tl s else s);
          ip = takeWhile is_digit body;
          rest = dropWhile is_digit body;
          fp = (if rest \<noteq> [] \<and> hd rest = CHR ''.'' then takeWhile is_digit (tl rest) else []);
          v = of_nat (digits_value ip) + of_nat (digits_value fp) / 10 ^ length fp
      in if neg then - v else v)"

definition truncate_long :: "nat \<Rightarrow> rat \<Rightarrow> int option" where
  "truncate_long bits q =
     (let t = (if q < 0 then - \<lfloor>- q\<rfloor> else \<lfloor>q\<rfloor>)
      in if - (2 ^ (bits - 1)) \<le> t \<and> t < 2 ^ (bits - 1) then Some t else None)"

definition sample_config :: "rat config" where
  "sample_config =
     \<lparr>COMMAND_MAX_SIZE = 16, ARGUMENT_MAX_SIZE = 32, ARGUMENT_ARRAY_MAX_SIZE = 8,
      VARIABLE_MAX_SIZE = 16, TYPE_LINE = 1, LONG_BITS = 64, SIZE_MAX = 2 ^ 64 - 1,
      atof = atof_decimal, mul_double = (\<lambda>d k. d * of_int k),
      to_long = truncate_long 64\<rparr>"

subsection \<open>What parse_line can store\<close>


declare decimal.simps [simp del]

section \<open>Properties\<close>

subsection \<open>Evaluation on the instance\<close>

lemmas sample_eval =
  to_base_unit_def sample_config_def put_def is_number_char_def is_letter_def long_cast_def
  atof_decimal_def truncate_long_def digits_value_def is_digit_def isspace_def in_long_def

subsection \<open>The loops of parse_coordinates\<close>

text \<open>A write that stays inside the buffer and below the wrap of its counter appends.\<close>

lemma put_ok:
  "pos + 1 < sz \<Longrightarrow> pos + 1 < wrap \<Longrightarrow>
   put wrap sz buf pos c = Inr (take pos buf @ [c], pos + 1)"
  by (simp add: put_def)

lemma width_loop:
  "cur_pos \<le> length coord_x \<Longrightarrow> cur_pos + length arg < ARGUMENT_MAX_SIZE cfg \<Longrightarrow> cur_pos + length arg < 256 \<Longrightarrow>
   parse_coordinates_loop cfg PARSING_WIDTH cur_pos operation coord_x coord_y arg =
     Inr (operation, (if arg = [] then coord_x else take cur_pos coord_x @ arg), coord_y)"
proof (induction arg arbitrary: cur_pos coord_x)
  case Nil
  then show ?case by simp
next
  case (Cons c arg)
  have p: "put 256 (ARGUMENT_MAX_SIZE cfg) coord_x cur_pos c = Inr (take cur_pos coord_x @ [c], cur_pos + 1)"
    using Cons.prems by (intro put_ok) simp_all
  have "parse_coordinates_loop cfg PARSING_WIDTH (cur_pos + 1) operation (take cur_pos coord_x @ [c]) coord_y arg =
     Inr (operation, (if arg = [] then take cur_pos coord_x @ [c] else take (cur_pos + 1) (take cur_pos coord_x @ [c]) @ arg), coord_y)"
    using Cons.prems by (intro Cons.IH) simp_all
  then show ?case using Cons.prems by (simp add: p)
qed

lemma height_loop:
  "cur_pos \<le> length coord_y \<Longrightarrow> cur_pos + length arg < ARGUMENT_MAX_SIZE cfg \<Longrightarrow> cur_pos + length arg < 256 \<Longrightarrow>
   parse_coordinates_loop cfg PARSING_HEIGHT cur_pos operation coord_x coord_y arg =
     Inr (operation, coord_x, (if arg = [] then coord_y else take cur_pos coord_y @ arg))"
proof (induction arg arbitrary: cur_pos coord_y)
  case Nil
  then show ?case by simp
next
  case (Cons c arg)
  have p: "put 256 (ARGUMENT_MAX_SIZE cfg) coord_y cur_pos c = Inr (take cur_pos coord_y @ [c], cur_pos + 1)"
    using Cons.prems by (intro put_ok) simp_all
  have "parse_coordinates_loop cfg PARSING_HEIGHT (cur_pos + 1) operation coord_x (take cur_pos coord_y @ [c]) arg =
     Inr (operation, coord_x, (if arg = [] then take cur_pos coord_y @ [c] else take (cur_pos + 1) (take cur_pos coord_y @ [c]) @ arg))"
    using Cons.prems by (intro Cons.IH) simp_all
  then show ?case using Cons.prems by (simp add: p)
qed

lemma coordy_loop:
  "cur_pos \<le> length coord_y \<Longrightarrow> cur_pos + length arg < ARGUMENT_MAX_SIZE cfg \<Longrightarrow> cur_pos + length arg < 256 \<Longrightarrow>
   parse_coordinates_loop cfg PARSING_COORDY cur_pos operation coord_x coord_y arg =
     Inr (operation, coord_x, (if arg = [] then coord_y else take cur_pos coord_y @ arg))"
proof (induction arg arbitrary: cur_pos coord_y)
  case Nil
  then show ?case by simp
next
  case (Cons c arg)
  have p: "put 256 (ARGUMENT_MAX_SIZE cfg) coord_y cur_pos c = Inr (take cur_pos coord_y @ [c], cur_pos + 1)"
    using Cons.prems by (intro put_ok) simp_all
  have "parse_coordinates_loop cfg PARSING_COORDY (cur_pos + 1) operation coord_x (take cur_pos coord_y @ [c]) arg =
     Inr (operation, coord_x, (if arg = [] then take cur_pos coord_y @ [c] else take (cur_pos + 1) (take cur_pos coord_y @ [c]) @ arg))"
    using Cons.prems by (intro Cons.IH) simp_all
  then show ?case using Cons.prems by (simp add: p)
qed

lemma coordx_loop:
  "cur_pos \<le> length coord_x \<Longrightarrow> cur_pos + length lx < ARGUMENT_MAX_SIZE cfg \<Longrightarrow> cur_pos + length lx < 256 \<Longrightarrow>
   CHR '';'' \<notin> set lx \<Longrightarrow>
   parse_coordinates_loop cfg PARSING_COORDX cur_pos operation coord_x coord_y (lx @ CHR '';'' # rest) =
     parse_coordinates_loop cfg PARSING_ARGUMENTS 0 operation
       (if lx = [] then coord_x else take cur_pos coord_x @ lx) coord_y rest"
proof (induction lx arbitrary: cur_pos coord_x)
  case Nil
  then show ?case by simp
next
  case (Cons c lx)
  have p: "put 256 (ARGUMENT_MAX_SIZE cfg) coord_x cur_pos c = Inr (take cur_pos coord_x @ [c], cur_pos + 1)"
    using Cons.prems by (intro put_ok) simp_all
  have "parse_coordinates_loop cfg PARSING_COORDX (cur_pos + 1) operation (take cur_pos coord_x @ [c]) coord_y (lx @ CHR '';'' # rest) =
     parse_coordinates_loop cfg PARSING_ARGUMENTS 0 operation
       (if lx = [] then take cur_pos coord_x @ [c] else take (cur_pos + 1) (take cur_pos coord_x @ [c]) @ lx) coord_y rest"
    using Cons.prems by (intro Cons.IH) simp_all
  moreover have "c \<noteq> CHR '';''" using Cons.prems by auto
  ultimately show ?case using Cons.prems by (simp add: p)
qed


subsection \<open>The coordinate forms\<close>

text \<open>
  C2. The absolute form \<open>x<len>;y<len>\<close> gives the two converted lengths, whatever base
  is supplied. With a base, \<open>w<len>\<close> adds the length to the base's x and copies the
  base's y, and \<open>h<len>\<close> adds the length to the base's y and copies the base's x. The
  lengths are non-empty, fit the buffers and convert; the sum fits a \<^verbatim>\<open>long\<close>. The
  witness evaluates the three reference results: \<open>x10mm;y20mm\<close> without a base is
  (10, 20); with base (10, 20), \<open>w5mm\<close> is (15, 20) and \<open>h5mm\<close> is (10, 25).
\<close>

theorem parse_coordinates_forms:
  "(2 \<le> ARGUMENT_MAX_SIZE cfg \<and> lx \<noteq> [] \<and> ly \<noteq> [] \<and> CHR '';'' \<notin> set lx \<and>
    length lx < ARGUMENT_MAX_SIZE cfg \<and> length lx < 256 \<and>
    length ly < ARGUMENT_MAX_SIZE cfg \<and> length ly < 256 \<and>
    to_base_unit cfg lx = Inr vx \<and> to_base_unit cfg ly = Inr vy
    \<longrightarrow> parse_coordinates cfg (CHR ''x'' # lx @ CHR '';'' # CHR ''y'' # ly) base = Inr \<lparr>X = vx, Y = vy\<rparr>) \<and>
   (2 \<le> ARGUMENT_MAX_SIZE cfg \<and> len \<noteq> [] \<and>
    length len < ARGUMENT_MAX_SIZE cfg \<and> length len < 256 \<and>
    to_base_unit cfg len = Inr v \<and> to_base_unit cfg ''0'' = Inr z \<and> in_long cfg (v + X b)
    \<longrightarrow> parse_coordinates cfg (CHR ''w'' # len) (Some b) = Inr \<lparr>X = v + X b, Y = Y b\<rparr>) \<and>
   (2 \<le> ARGUMENT_MAX_SIZE cfg \<and> len \<noteq> [] \<and>
    length len < ARGUMENT_MAX_SIZE cfg \<and> length len < 256 \<and>
    to_base_unit cfg len = Inr v \<and> to_base_unit cfg ''0'' = Inr z \<and> in_long cfg (v + Y b)
    \<longrightarrow> parse_coordinates cfg (CHR ''h'' # len) (Some b) = Inr \<lparr>X = X b, Y = v + Y b\<rparr>)"
proof (intro conjI impI)
  assume a: "2 \<le> ARGUMENT_MAX_SIZE cfg \<and> lx \<noteq> [] \<and> ly \<noteq> [] \<and> CHR '';'' \<notin> set lx \<and>
    length lx < ARGUMENT_MAX_SIZE cfg \<and> length lx < 256 \<and>
    length ly < ARGUMENT_MAX_SIZE cfg \<and> length ly < 256 \<and>
    to_base_unit cfg lx = Inr vx \<and> to_base_unit cfg ly = Inr vy"
  have "parse_coordinates_loop cfg PARSING_START 0 (CHR 0x00) ''0'' ''0'' (CHR ''x'' # lx @ CHR '';'' # CHR ''y'' # ly)
      = Inr (CHR 0x00, lx, ly)"
    using a by (simp add: coordx_loop coordy_loop)
  then show "parse_coordinates cfg (CHR ''x'' # lx @ CHR '';'' # CHR ''y'' # ly) base = Inr \<lparr>X = vx, Y = vy\<rparr>"
    using a by (simp add: parse_coordinates_def split: option.split)
next
  assume a: "2 \<le> ARGUMENT_MAX_SIZE cfg \<and> len \<noteq> [] \<and>
    length len < ARGUMENT_MAX_SIZE cfg \<and> length len < 256 \<and>
    to_base_unit cfg len = Inr v \<and> to_base_unit cfg ''0'' = Inr z \<and> in_long cfg (v + X b)"
  have "parse_coordinates_loop cfg PARSING_START 0 (CHR 0x00) ''0'' ''0'' (CHR ''w'' # len)
      = Inr (CHR ''w'', len, ''0'')"
    using a by (simp add: width_loop)
  then show "parse_coordinates cfg (CHR ''w'' # len) (Some b) = Inr \<lparr>X = v + X b, Y = Y b\<rparr>"
    using a by (simp add: parse_coordinates_def calc_coordinate_def long_add_def)
next
  assume a: "2 \<le> ARGUMENT_MAX_SIZE cfg \<and> len \<noteq> [] \<and>
    length len < ARGUMENT_MAX_SIZE cfg \<and> length len < 256 \<and>
    to_base_unit cfg len = Inr v \<and> to_base_unit cfg ''0'' = Inr z \<and> in_long cfg (v + Y b)"
  have "parse_coordinates_loop cfg PARSING_START 0 (CHR 0x00) ''0'' ''0'' (CHR ''h'' # len)
      = Inr (CHR ''h'', ''0'', len)"
    using a by (simp add: height_loop)
  then show "parse_coordinates cfg (CHR ''h'' # len) (Some b) = Inr \<lparr>X = X b, Y = v + Y b\<rparr>"
    using a by (simp add: parse_coordinates_def calc_coordinate_def long_add_def)
qed

theorem parse_coordinates_forms_witness:
  "parse_coordinates sample_config ''x10mm;y20mm'' None = Inr \<lparr>X = 10, Y = 20\<rparr> \<and>
   parse_coordinates sample_config ''w5mm'' (Some \<lparr>X = 10, Y = 20\<rparr>) = Inr \<lparr>X = 15, Y = 20\<rparr> \<and>
   parse_coordinates sample_config ''h5mm'' (Some \<lparr>X = 10, Y = 20\<rparr>) = Inr \<lparr>X = 10, Y = 25\<rparr>"
  using parse_coordinates_forms [of sample_config "''10mm''" "''20mm''" 10 20 None "''5mm''" 5 0 "\<lparr>X = 10, Y = 20\<rparr>"]
  by (simp add: sample_eval)

text \<open>
  C3, as the code has it. With no base, the relative forms do not fail: the guard
  \<^verbatim>\<open>base != NULL\<close> skips \<^verbatim>\<open>calc_coordinate\<close>, and the result is the converted length on
  its own axis and the conversion of the initial \<^verbatim>\<open>"0"\<close> on the other, so \<open>w<len>\<close> gives
  \<open>(len, 0)\<close> and \<open>h<len>\<close> gives \<open>(0, len)\<close>.
\<close>

theorem parse_coordinates_relative_without_base:
  "2 \<le> ARGUMENT_MAX_SIZE cfg \<Longrightarrow> len \<noteq> [] \<Longrightarrow>
    length len < ARGUMENT_MAX_SIZE cfg \<Longrightarrow> length len < 256 \<Longrightarrow>
    to_base_unit cfg len = Inr v \<Longrightarrow> to_base_unit cfg ''0'' = Inr 0 \<Longrightarrow>
    parse_coordinates cfg (CHR ''w'' # len) None = Inr \<lparr>X = v, Y = 0\<rparr> \<and>
    parse_coordinates cfg (CHR ''h'' # len) None = Inr \<lparr>X = 0, Y = v\<rparr>"
  by (simp add: parse_coordinates_def width_loop height_loop)

theorem parse_coordinates_relative_without_base_witness:
  "parse_coordinates sample_config ''w5mm'' None = Inr \<lparr>X = 5, Y = 0\<rparr> \<and>
   parse_coordinates sample_config ''h5mm'' None = Inr \<lparr>X = 0, Y = 5\<rparr>"
  using parse_coordinates_relative_without_base [of sample_config "''5mm''" 5]
  by (simp add: sample_eval)

text \<open>C3 as stated fails: \<open>w5mm\<close> with no base returns the coordinate (5, 0).\<close>

theorem parse_coordinates_relative_without_base_counterexample:
  "parse_coordinates sample_config ''w5mm'' None = Inr \<lparr>X = 5, Y = 0\<rparr>"
  by (simp add: sample_eval parse_coordinates_def)

subsection \<open>The tokenizer\<close>

text \<open>
  The two reference lines, for every configuration whose buffers hold them.
\<close>

lemma parse_line_reference_lines:
  assumes "4 < COMMAND_MAX_SIZE cfg" and "9 < ARGUMENT_MAX_SIZE cfg"
    and "3 \<le> ARGUMENT_ARRAY_MAX_SIZE cfg"
  shows "(\<exists>argv. parse_line cfg ''line x0mm;y0mm, w10mm'' = Inr (Parsed 2 ''line'' argv) \<and>
            take 2 argv = [Some ''x0mm;y0mm'', Some ''w10mm'']) \<and>
         (\<exists>argv. parse_line cfg ''line x0mm;y0mm, w10mm = &wall1'' = Inr (Parsed 3 ''line'' argv) \<and>
            take 3 argv = [Some ''x0mm;y0mm'', Some ''w10mm'', Some ''&wall1''])"
proof -
  let ?n = "ARGUMENT_ARRAY_MAX_SIZE cfg"
  have two: "parse_line cfg ''line x0mm;y0mm, w10mm'' =
      Inr (Parsed 2 ''line'' ((replicate ?n None)[0 := Some ''x0mm;y0mm'', 1 := Some ''w10mm'']))"
    using assms
    by (simp add: parse_line_def parse_line_finish_def put_def chomp_def isspace_def
        store_argument_def poke_def)
  have three: "parse_line cfg ''line x0mm;y0mm, w10mm = &wall1'' =
      Inr (Parsed 3 ''line'' ((replicate ?n None)
             [0 := Some ''x0mm;y0mm'', 1 := Some ''w10mm'', 2 := Some ''&wall1'']))"
    using assms
    by (simp add: parse_line_def parse_line_finish_def put_def chomp_def isspace_def
        store_argument_def poke_def)
  have t2: "take 2 ((replicate ?n None)[0 := Some ''x0mm;y0mm'', 1 := Some ''w10mm'']) =
      [Some ''x0mm;y0mm'', Some ''w10mm'']"
    using assms(3)
    by (cases ?n; simp add: take_Suc_conv_app_nth nth_list_update numeral_2_eq_2)
  have t3: "take 3 ((replicate ?n None)
        [0 := Some ''x0mm;y0mm'', 1 := Some ''w10mm'', 2 := Some ''&wall1'']) =
      [Some ''x0mm;y0mm'', Some ''w10mm'', Some ''&wall1'']"
    using assms(3)
    by (cases ?n; simp add: take_Suc_conv_app_nth nth_list_update numeral_3_eq_3)
  show ?thesis
    using two three t2 t3 by blast
qed

text \<open>The stages of \<^verbatim>\<open>parse_line\<close> on the parts of a line: the keyword up to its separating
  space or tab, blanks, the characters of an argument, an argument with the comma that
  ends it, and the characters of the capture variable.\<close>

lemma chomp_id: "\<forall>c\<in>set a. \<not> isspace c \<Longrightarrow> chomp a = a"
  by (simp add: chomp_def)

lemma command_chars:
  "\<forall>c\<in>set kw. c \<noteq> CHR '' '' \<and> c \<noteq> CHR 0x09 \<and> c \<noteq> CHR ''#'' \<Longrightarrow>
   length raw + length kw < COMMAND_MAX_SIZE cfg \<Longrightarrow> length raw + length kw < 65536 \<Longrightarrow>
   s = CHR '' '' \<or> s = CHR 0x09 \<Longrightarrow>
   parse_line_loop cfg PARSING_COMMAND (length raw) argc cur_arg raw command arguments (kw @ s # rest) =
   parse_line_loop cfg PARSING_ARGUMENTS 0 0 cur_arg (raw @ kw) (chomp (raw @ kw)) arguments rest"
proof (induction kw arbitrary: raw)
  case Nil
  then show ?case by auto
next
  case (Cons c kw)
  have "parse_line_loop cfg PARSING_COMMAND (length (raw @ [c])) argc cur_arg (raw @ [c]) command
      arguments (kw @ s # rest) =
    parse_line_loop cfg PARSING_ARGUMENTS 0 0 cur_arg ((raw @ [c]) @ kw) (chomp ((raw @ [c]) @ kw))
      arguments rest"
    using Cons.prems by (intro Cons.IH) simp_all
  then show ?case using Cons.prems by (simp add: poke_def)
qed

lemma skip_blank_arguments:
  "set ws \<subseteq> {CHR '' '', CHR 0x09} \<Longrightarrow>
   parse_line_loop cfg PARSING_ARGUMENTS p argc cur_arg raw command arguments (ws @ rest) =
   parse_line_loop cfg PARSING_ARGUMENTS p argc cur_arg raw command arguments rest"
  by (induction ws) auto

lemma skip_blank_capture:
  "set ws \<subseteq> {CHR '' '', CHR 0x09} \<Longrightarrow>
   parse_line_loop cfg PARSING_SET_OBJVAR p argc cur_arg raw command arguments (ws @ rest) =
   parse_line_loop cfg PARSING_SET_OBJVAR p argc cur_arg raw command arguments rest"
  by (induction ws) auto

lemma argument_chars:
  "\<forall>c\<in>set a. c \<noteq> CHR '' '' \<and> c \<noteq> CHR 0x09 \<and> c \<noteq> CHR ''#'' \<and> c \<noteq> CHR '','' \<and> c \<noteq> CHR ''='' \<Longrightarrow>
   p + length a < ARGUMENT_MAX_SIZE cfg \<Longrightarrow> p + length a < 65536 \<Longrightarrow>
   p \<le> length (case cur_arg of None \<Rightarrow> [] | Some b \<Rightarrow> b) \<Longrightarrow>
   parse_line_loop cfg PARSING_ARGUMENTS p argc cur_arg raw command arguments (a @ rest) =
   parse_line_loop cfg PARSING_ARGUMENTS (p + length a)
     (if a \<noteq> [] \<and> p = 0 then argc + 1 else argc)
     (if a = [] then cur_arg else Some (take p (case cur_arg of None \<Rightarrow> [] | Some b \<Rightarrow> b) @ a))
     raw command arguments rest"
proof (induction a arbitrary: p argc cur_arg)
  case Nil
  then show ?case by simp
next
  case (Cons c a)
  let ?buf = "case cur_arg of None \<Rightarrow> [] | Some b \<Rightarrow> b"
  let ?argc = "if p = 0 then argc + 1 else argc"
  have p: "put 65536 (ARGUMENT_MAX_SIZE cfg) ?buf p c = Inr (take p ?buf @ [c], p + 1)"
    using Cons.prems by (intro put_ok) simp_all
  have "parse_line_loop cfg PARSING_ARGUMENTS (p + 1) ?argc (Some (take p ?buf @ [c])) raw command
      arguments (a @ rest) =
    parse_line_loop cfg PARSING_ARGUMENTS (p + 1 + length a)
      (if a \<noteq> [] \<and> p + 1 = 0 then ?argc + 1 else ?argc)
      (if a = [] then Some (take p ?buf @ [c])
       else Some (take (p + 1) (case Some (take p ?buf @ [c]) of None \<Rightarrow> [] | Some b \<Rightarrow> b) @ a))
      raw command arguments rest"
    using Cons.prems by (intro Cons.IH) simp_all
  then show ?case using Cons.prems by (simp add: p Let_def)
qed

lemma capture_chars:
  "\<forall>c\<in>set name. c \<noteq> CHR '' '' \<and> c \<noteq> CHR 0x09 \<and> c \<noteq> CHR ''#'' \<Longrightarrow>
   0 < p \<Longrightarrow> p + length name < ARGUMENT_MAX_SIZE cfg \<Longrightarrow> p + length name < 65536 \<Longrightarrow>
   p \<le> length b \<Longrightarrow>
   parse_line_loop cfg PARSING_SET_OBJVAR p argc (Some b) raw command arguments (name @ rest) =
   parse_line_loop cfg PARSING_SET_OBJVAR (p + length name) argc
     (if name = [] then Some b else Some (take p b @ name)) raw command arguments rest"
proof (induction name arbitrary: p b)
  case Nil
  then show ?case by simp
next
  case (Cons c name)
  have p: "put 65536 (ARGUMENT_MAX_SIZE cfg) b p c = Inr (take p b @ [c], p + 1)"
    using Cons.prems by (intro put_ok) simp_all
  have "parse_line_loop cfg PARSING_SET_OBJVAR (p + 1) argc (Some (take p b @ [c])) raw command
      arguments (name @ rest) =
    parse_line_loop cfg PARSING_SET_OBJVAR (p + 1 + length name) argc
      (if name = [] then Some (take p b @ [c])
       else Some (take (p + 1) (take p b @ [c]) @ name)) raw command arguments rest"
    using Cons.prems by (intro Cons.IH) simp_all
  then show ?case using Cons.prems by (simp add: p)
qed


lemma store_next:
  "store_argument (map Some done @ replicate (Suc m) None) (int (length done)) a =
   Inr (map Some (done @ [a]) @ replicate m None)"
  by (simp add: store_argument_def list_update_append)

lemma not_isspace: "\<not> isspace c \<Longrightarrow> c \<noteq> CHR '' '' \<and> c \<noteq> CHR 0x09"
  by (auto simp: isspace_def)

lemma item_scanned:
  assumes "set l \<subseteq> {CHR '' '', CHR 0x09}" and "set r \<subseteq> {CHR '' '', CHR 0x09}"
    and "a \<noteq> []"
    and "\<forall>c\<in>set a. \<not> isspace c \<and> c \<noteq> CHR '','' \<and> c \<noteq> CHR ''='' \<and> c \<noteq> CHR ''#''"
    and "length a < ARGUMENT_MAX_SIZE cfg" and "length a < 65536"
  shows "parse_line_loop cfg PARSING_ARGUMENTS 0 argc cur_arg raw command arguments (l @ a @ r @ rest) =
    parse_line_loop cfg PARSING_ARGUMENTS (length a) (argc + 1) (Some a) raw command arguments rest"
proof -
  have chars: "\<forall>c\<in>set a. c \<noteq> CHR '' '' \<and> c \<noteq> CHR 0x09 \<and> c \<noteq> CHR ''#'' \<and> c \<noteq> CHR '','' \<and> c \<noteq> CHR ''=''"
    using assms(4) not_isspace by blast
  have "parse_line_loop cfg PARSING_ARGUMENTS 0 argc cur_arg raw command arguments (l @ a @ r @ rest) =
    parse_line_loop cfg PARSING_ARGUMENTS 0 argc cur_arg raw command arguments (a @ r @ rest)"
    using assms(1) by (rule skip_blank_arguments)
  also have "\<dots> = parse_line_loop cfg PARSING_ARGUMENTS (length a) (argc + 1) (Some a) raw command
      arguments (r @ rest)"
    using argument_chars [OF chars, of 0 cfg cur_arg argc raw command arguments "r @ rest"] assms(3,5,6)
    by simp
  also have "\<dots> = parse_line_loop cfg PARSING_ARGUMENTS (length a) (argc + 1) (Some a) raw command
      arguments rest"
    using assms(2) by (rule skip_blank_arguments)
  finally show ?thesis .
qed

lemma item_comma:
  assumes "set l \<subseteq> {CHR '' '', CHR 0x09}" and "set r \<subseteq> {CHR '' '', CHR 0x09}"
    and "a \<noteq> []"
    and "\<forall>c\<in>set a. \<not> isspace c \<and> c \<noteq> CHR '','' \<and> c \<noteq> CHR ''='' \<and> c \<noteq> CHR ''#''"
    and "length a < ARGUMENT_MAX_SIZE cfg" and "length a < 65536"
    and "length done + Suc (Suc m) = ARGUMENT_ARRAY_MAX_SIZE cfg"
  shows "parse_line_loop cfg PARSING_ARGUMENTS 0 (int (length done)) cur_arg raw command
      (map Some done @ replicate (Suc (Suc m)) None) (l @ a @ r @ CHR '','' # rest) =
    parse_line_loop cfg PARSING_ARGUMENTS 0 (int (length (done @ [a]))) (Some []) raw command
      (map Some (done @ [a]) @ replicate (Suc m) None) rest"
proof -
  have c: "chomp a = a"
    using assms(4) by (simp add: chomp_id)
  have n: "int (length done) + 1 \<noteq> int (ARGUMENT_ARRAY_MAX_SIZE cfg)"
    using assms(7) by simp
  have "parse_line_loop cfg PARSING_ARGUMENTS 0 (int (length done)) cur_arg raw command
      (map Some done @ replicate (Suc (Suc m)) None) (l @ a @ r @ CHR '','' # rest) =
    parse_line_loop cfg PARSING_ARGUMENTS (length a) (int (length done) + 1) (Some a) raw command
      (map Some done @ replicate (Suc (Suc m)) None) (CHR '','' # rest)"
    using assms(1-6) by (rule item_scanned)
  also have "\<dots> = parse_line_loop cfg PARSING_ARGUMENTS 0 (int (length (done @ [a]))) (Some []) raw
      command (map Some (done @ [a]) @ replicate (Suc m) None) rest"
    using n store_next [of "done" "Suc m" a] by (simp add: c add.commute)
  finally show ?thesis .
qed


lemma items_scanned:
  assumes "\<forall>(l, a, r)\<in>set items. set l \<subseteq> {CHR '' '', CHR 0x09} \<and> set r \<subseteq> {CHR '' '', CHR 0x09} \<and>
      a \<noteq> [] \<and> (\<forall>c\<in>set a. \<not> isspace c \<and> c \<noteq> CHR '','' \<and> c \<noteq> CHR ''='' \<and> c \<noteq> CHR ''#'') \<and>
      length a < ARGUMENT_MAX_SIZE cfg \<and> length a < 65536"
    and "length done + length items + Suc m = ARGUMENT_ARRAY_MAX_SIZE cfg"
  shows "parse_line_loop cfg PARSING_ARGUMENTS 0 (int (length done)) cur_arg raw command
      (map Some done @ replicate (length items + Suc m) None)
      (concat (map (\<lambda>(l, a, r). l @ a @ r @ '','') items) @ rest) =
    parse_line_loop cfg PARSING_ARGUMENTS 0 (int (length done + length items))
      (if items = [] then cur_arg else Some []) raw command
      (map Some (done @ map (\<lambda>(l, a, r). a) items) @ replicate (Suc m) None) rest"
  using assms
proof (induction items arbitrary: "done" cur_arg)
  case Nil
  then show ?case by simp
next
  case (Cons item items)
  obtain l a r where item: "item = (l, a, r)"
    by (cases item) auto
  have ok: "set l \<subseteq> {CHR '' '', CHR 0x09}" "set r \<subseteq> {CHR '' '', CHR 0x09}" "a \<noteq> []"
    "\<forall>c\<in>set a. \<not> isspace c \<and> c \<noteq> CHR '','' \<and> c \<noteq> CHR ''='' \<and> c \<noteq> CHR ''#''"
    "length a < ARGUMENT_MAX_SIZE cfg" "length a < 65536"
    using Cons.prems(1) item by auto
  have size: "length done + Suc (Suc (length items + m)) = ARGUMENT_ARRAY_MAX_SIZE cfg"
    using Cons.prems(2) by simp
  let ?rest = "concat (map (\<lambda>(l, a, r). l @ a @ r @ '','') items) @ rest"
  have "parse_line_loop cfg PARSING_ARGUMENTS 0 (int (length done)) cur_arg raw command
      (map Some done @ replicate (Suc (Suc (length items + m))) None) (l @ a @ r @ CHR '','' # ?rest) =
    parse_line_loop cfg PARSING_ARGUMENTS 0 (int (length (done @ [a]))) (Some []) raw command
      (map Some (done @ [a]) @ replicate (Suc (length items + m)) None) ?rest"
    using ok size by (rule item_comma)
  also have "\<dots> = parse_line_loop cfg PARSING_ARGUMENTS 0 (int (length (done @ [a]) + length items))
      (if items = [] then Some [] else Some []) raw command
      (map Some ((done @ [a]) @ map (\<lambda>(l, a, r). a) items) @ replicate (Suc m) None) rest"
    using Cons.IH [of "done @ [a]" "Some []"] Cons.prems by simp
  finally show ?case
    by (simp add: item)
qed


lemma take_stored:
  "take (length as) (map Some as @ replicate m None) = map Some as"
  by simp

lemma line_scanned:
  assumes kw: "\<forall>c\<in>set kw. \<not> isspace c \<and> c \<noteq> CHR ''#''"
      "length kw < COMMAND_MAX_SIZE cfg" "length kw < 65536"
    and sep: "s = CHR '' '' \<or> s = CHR 0x09"
    and items: "\<forall>(l, a, r)\<in>set (items @ [(l', a', r')]).
      set l \<subseteq> {CHR '' '', CHR 0x09} \<and> set r \<subseteq> {CHR '' '', CHR 0x09} \<and>
      a \<noteq> [] \<and> (\<forall>c\<in>set a. \<not> isspace c \<and> c \<noteq> CHR '','' \<and> c \<noteq> CHR ''='' \<and> c \<noteq> CHR ''#'') \<and>
      length a < ARGUMENT_MAX_SIZE cfg \<and> length a < 65536"
    and size: "length items + Suc m = ARGUMENT_ARRAY_MAX_SIZE cfg"
  shows "parse_line cfg (kw @ s # concat (map (\<lambda>(l, a, r). l @ a @ r @ '','') items) @ l' @ a' @ r' @ rest) =
    parse_line_loop cfg PARSING_ARGUMENTS (length a') (int (length items) + 1) (Some a') kw kw
      (map Some (map (\<lambda>(l, a, r). a) items) @ replicate (Suc m) None) rest"
proof -
  let ?body = "concat (map (\<lambda>(l, a, r). l @ a @ r @ '','') items) @ l' @ a' @ r' @ rest"
  have kw': "\<forall>c\<in>set kw. c \<noteq> CHR '' '' \<and> c \<noteq> CHR 0x09 \<and> c \<noteq> CHR ''#''"
    using kw(1) not_isspace by blast
  have ck: "chomp kw = kw"
    using kw(1) by (simp add: chomp_id)
  have its: "\<forall>(l, a, r)\<in>set items. set l \<subseteq> {CHR '' '', CHR 0x09} \<and> set r \<subseteq> {CHR '' '', CHR 0x09} \<and>
      a \<noteq> [] \<and> (\<forall>c\<in>set a. \<not> isspace c \<and> c \<noteq> CHR '','' \<and> c \<noteq> CHR ''='' \<and> c \<noteq> CHR ''#'') \<and>
      length a < ARGUMENT_MAX_SIZE cfg \<and> length a < 65536"
    using items by simp
  have last: "set l' \<subseteq> {CHR '' '', CHR 0x09}" "set r' \<subseteq> {CHR '' '', CHR 0x09}" "a' \<noteq> []"
    "\<forall>c\<in>set a'. \<not> isspace c \<and> c \<noteq> CHR '','' \<and> c \<noteq> CHR ''='' \<and> c \<noteq> CHR ''#''"
    "length a' < ARGUMENT_MAX_SIZE cfg" "length a' < 65536"
    using items by simp_all
  have "parse_line cfg (kw @ s # ?body) =
    parse_line_loop cfg PARSING_COMMAND (length ([]::string)) (- 1) None [] []
      (replicate (ARGUMENT_ARRAY_MAX_SIZE cfg) None) (kw @ s # ?body)"
    using kw(2) by (simp add: parse_line_def)
  also have "\<dots> = parse_line_loop cfg PARSING_ARGUMENTS 0 0 None ([] @ kw) (chomp ([] @ kw))
      (replicate (ARGUMENT_ARRAY_MAX_SIZE cfg) None) ?body"
    using kw' kw(2,3) sep by (intro command_chars) simp_all
  also have "\<dots> = parse_line_loop cfg PARSING_ARGUMENTS 0 (int (length ([]::string list))) None kw kw
      (map Some [] @ replicate (length items + Suc m) None) ?body"
    using size by (simp add: ck)
  also have "\<dots> = parse_line_loop cfg PARSING_ARGUMENTS 0 (int (length ([]::string list) + length items))
      (if items = [] then None else Some []) kw kw
      (map Some ([] @ map (\<lambda>(l, a, r). a) items) @ replicate (Suc m) None) (l' @ a' @ r' @ rest)"
    using its size by (intro items_scanned) simp_all
  also have "\<dots> = parse_line_loop cfg PARSING_ARGUMENTS (length a')
      (int (length ([]::string list) + length items) + 1) (Some a') kw kw
      (map Some ([] @ map (\<lambda>(l, a, r). a) items) @ replicate (Suc m) None) rest"
    using last by (rule item_scanned)
  finally show ?thesis by simp
qed

text \<open>
  C4. A line is a keyword \<open>kw\<close>, a space or tab, and arguments separated by commas, each
  argument with any blanks before and after it; \<open>items\<close> are the arguments that a comma
  ends and \<open>a'\<close> is the last one. The keyword and the arguments hold no whitespace and
  no \<open>#\<close>, the arguments no comma and no \<open>=\<close>, and all fit their buffers. Then
  \<open>parse_line\<close> returns the keyword, the number of arguments, and the arguments in the
  order of the line in the first entries of the array. When the line goes on with \<open>=\<close>,
  blanks and a capture variable \<open>&name\<close>, the capture variable is one more argument,
  the last. The witness gives the two reference lines.
\<close>

theorem parse_line_splits:
  assumes kw: "\<forall>c\<in>set kw. \<not> isspace c \<and> c \<noteq> CHR ''#''"
      "length kw < COMMAND_MAX_SIZE cfg" "length kw < 65536"
    and sep: "s = CHR '' '' \<or> s = CHR 0x09"
    and items: "\<forall>(l, a, r)\<in>set (items @ [(l', a', r')]).
      set l \<subseteq> {CHR '' '', CHR 0x09} \<and> set r \<subseteq> {CHR '' '', CHR 0x09} \<and>
      a \<noteq> [] \<and> (\<forall>c\<in>set a. \<not> isspace c \<and> c \<noteq> CHR '','' \<and> c \<noteq> CHR ''='' \<and> c \<noteq> CHR ''#'') \<and>
      length a < ARGUMENT_MAX_SIZE cfg \<and> length a < 65536"
  shows "(length items + 1 \<le> ARGUMENT_ARRAY_MAX_SIZE cfg \<longrightarrow>
      (\<exists>argv. parse_line cfg
           (kw @ s # concat (map (\<lambda>(l, a, r). l @ a @ r @ '','') items) @ l' @ a' @ r') =
         Inr (Parsed (int (length items) + 1) kw argv) \<and>
         length argv = ARGUMENT_ARRAY_MAX_SIZE cfg \<and>
         take (length items + 1) argv = map Some (map (\<lambda>(l, a, r). a) items @ [a']))) \<and>
     (length items + 2 \<le> ARGUMENT_ARRAY_MAX_SIZE cfg \<and>
      set wl \<subseteq> {CHR '' '', CHR 0x09} \<and> set wr \<subseteq> {CHR '' '', CHR 0x09} \<and>
      (\<forall>c\<in>set name. \<not> isspace c \<and> c \<noteq> CHR ''#'') \<and>
      Suc (length name) < ARGUMENT_MAX_SIZE cfg \<and> Suc (length name) < 65536 \<longrightarrow>
      (\<exists>argv. parse_line cfg
           (kw @ s # concat (map (\<lambda>(l, a, r). l @ a @ r @ '','') items) @ l' @ a' @ r' @
            CHR ''='' # wl @ CHR ''&'' # name @ wr) =
         Inr (Parsed (int (length items) + 2) kw argv) \<and>
         length argv = ARGUMENT_ARRAY_MAX_SIZE cfg \<and>
         take (length items + 2) argv =
           map Some (map (\<lambda>(l, a, r). a) items @ [a', CHR ''&'' # name])))"
proof (intro conjI impI)
  let ?as = "map (\<lambda>(l, a, r). a) items"
  have ca: "chomp a' = a'"
    using items by (simp add: chomp_id)
  assume "length items + 1 \<le> ARGUMENT_ARRAY_MAX_SIZE cfg"
  then have "\<exists>m. length items + Suc m = ARGUMENT_ARRAY_MAX_SIZE cfg"
    by presburger
  then obtain m where m: "length items + Suc m = ARGUMENT_ARRAY_MAX_SIZE cfg" ..
  have "parse_line cfg (kw @ s # concat (map (\<lambda>(l, a, r). l @ a @ r @ '','') items) @ l' @ a' @ r' @ []) =
    parse_line_loop cfg PARSING_ARGUMENTS (length a') (int (length items) + 1) (Some a') kw kw
      (map Some ?as @ replicate (Suc m) None) []"
    using kw sep items m by (rule line_scanned)
  also have "\<dots> = Inr (Parsed (int (length items) + 1) kw (map Some (?as @ [a']) @ replicate m None))"
    using store_next [of ?as m a'] by (simp add: parse_line_finish_def ca)
  finally have "parse_line cfg (kw @ s # concat (map (\<lambda>(l, a, r). l @ a @ r @ '','') items) @ l' @ a' @ r') =
    Inr (Parsed (int (length items) + 1) kw (map Some (?as @ [a']) @ replicate m None))"
    by simp
  moreover have "length (map Some (?as @ [a']) @ replicate m None) = ARGUMENT_ARRAY_MAX_SIZE cfg"
    using m by simp
  moreover have "take (length items + 1) (map Some (?as @ [a']) @ replicate m None) = map Some (?as @ [a'])"
    using take_stored [of "?as @ [a']" m] by simp
  ultimately show "\<exists>argv. parse_line cfg
           (kw @ s # concat (map (\<lambda>(l, a, r). l @ a @ r @ '','') items) @ l' @ a' @ r') =
         Inr (Parsed (int (length items) + 1) kw argv) \<and>
         length argv = ARGUMENT_ARRAY_MAX_SIZE cfg \<and>
         take (length items + 1) argv = map Some (?as @ [a'])"
    by blast
next
  let ?as = "map (\<lambda>(l, a, r). a) items"
  let ?tail = "CHR ''='' # wl @ CHR ''&'' # name @ wr"
  have ca: "chomp a' = a'"
    using items by (simp add: chomp_id)
  assume cap: "length items + 2 \<le> ARGUMENT_ARRAY_MAX_SIZE cfg \<and>
      set wl \<subseteq> {CHR '' '', CHR 0x09} \<and> set wr \<subseteq> {CHR '' '', CHR 0x09} \<and>
      (\<forall>c\<in>set name. \<not> isspace c \<and> c \<noteq> CHR ''#'') \<and>
      Suc (length name) < ARGUMENT_MAX_SIZE cfg \<and> Suc (length name) < 65536"
  then have count: "length items + 2 \<le> ARGUMENT_ARRAY_MAX_SIZE cfg"
    and wl: "set wl \<subseteq> {CHR '' '', CHR 0x09}" and wr: "set wr \<subseteq> {CHR '' '', CHR 0x09}"
    and nm: "\<forall>c\<in>set name. \<not> isspace c \<and> c \<noteq> CHR ''#''"
    and len: "Suc (length name) < ARGUMENT_MAX_SIZE cfg" "Suc (length name) < 65536"
    by blast+
  from count have "\<exists>m. length items + Suc (Suc m) = ARGUMENT_ARRAY_MAX_SIZE cfg"
    by presburger
  then obtain m where m: "length items + Suc (Suc m) = ARGUMENT_ARRAY_MAX_SIZE cfg" ..
  have name: "\<forall>c\<in>set name. c \<noteq> CHR '' '' \<and> c \<noteq> CHR 0x09 \<and> c \<noteq> CHR ''#''"
    using nm not_isspace by blast
  have "\<not> isspace (CHR ''&'')"
    by (simp add: isspace_def)
  then have "\<forall>c\<in>set (CHR ''&'' # name). \<not> isspace c"
    using nm by simp
  then have cn: "chomp (CHR ''&'' # name) = CHR ''&'' # name"
    by (rule chomp_id)
  have amp: "put 65536 (ARGUMENT_MAX_SIZE cfg) a' 0 (CHR ''&'') = Inr (''&'', 1)"
    using len by (simp add: put_def)
  have "parse_line cfg (kw @ s # concat (map (\<lambda>(l, a, r). l @ a @ r @ '','') items) @ l' @ a' @ r' @ ?tail) =
    parse_line_loop cfg PARSING_ARGUMENTS (length a') (int (length items) + 1) (Some a') kw kw
      (map Some ?as @ replicate (Suc (Suc m)) None) ?tail"
    using kw sep items m by (rule line_scanned)
  also have "\<dots> = parse_line_loop cfg PARSING_SET_OBJVAR 0 (int (length items) + 1) (Some a') kw kw
      (map Some (?as @ [a']) @ replicate (Suc m) None) (wl @ CHR ''&'' # name @ wr)"
    using store_next [of ?as "Suc m" a'] by (simp add: ca)
  also have "\<dots> = parse_line_loop cfg PARSING_SET_OBJVAR 0 (int (length items) + 1) (Some a') kw kw
      (map Some (?as @ [a']) @ replicate (Suc m) None) (CHR ''&'' # name @ wr)"
    using wl by (rule skip_blank_capture)
  also have "\<dots> = parse_line_loop cfg PARSING_SET_OBJVAR 1 (int (length items) + 1) (Some ''&'') kw kw
      (map Some (?as @ [a']) @ replicate (Suc m) None) (name @ wr)"
    by (simp add: amp)
  also have "\<dots> = parse_line_loop cfg PARSING_SET_OBJVAR (1 + length name) (int (length items) + 1)
      (if name = [] then Some ''&'' else Some (take 1 ''&'' @ name)) kw kw
      (map Some (?as @ [a']) @ replicate (Suc m) None) wr"
    using name len by (intro capture_chars) simp_all
  also have "\<dots> = parse_line_loop cfg PARSING_SET_OBJVAR (1 + length name) (int (length items) + 1)
      (Some (CHR ''&'' # name)) kw kw (map Some (?as @ [a']) @ replicate (Suc m) None) (wr @ [])"
    by simp
  also have "\<dots> = parse_line_loop cfg PARSING_SET_OBJVAR (1 + length name) (int (length items) + 1)
      (Some (CHR ''&'' # name)) kw kw (map Some (?as @ [a']) @ replicate (Suc m) None) []"
    using wr by (rule skip_blank_capture)
  also have "\<dots> = Inr (Parsed (int (length items) + 2) kw
      (map Some ((?as @ [a']) @ [CHR ''&'' # name]) @ replicate m None))"
    using store_next [of "?as @ [a']" m "CHR ''&'' # name"]
    by (simp add: parse_line_finish_def cn)
  finally have "parse_line cfg (kw @ s # concat (map (\<lambda>(l, a, r). l @ a @ r @ '','') items) @ l' @ a' @ r' @ ?tail) =
    Inr (Parsed (int (length items) + 2) kw (map Some (?as @ [a', CHR ''&'' # name]) @ replicate m None))"
    by simp
  moreover have "length (map Some (?as @ [a', CHR ''&'' # name]) @ replicate m None) =
      ARGUMENT_ARRAY_MAX_SIZE cfg"
    using m by simp
  moreover have "take (length items + 2) (map Some (?as @ [a', CHR ''&'' # name]) @ replicate m None) =
      map Some (?as @ [a', CHR ''&'' # name])"
    using take_stored [of "?as @ [a', CHR ''&'' # name]" m] by simp
  ultimately show "\<exists>argv. parse_line cfg
           (kw @ s # concat (map (\<lambda>(l, a, r). l @ a @ r @ '','') items) @ l' @ a' @ r' @
            CHR ''='' # wl @ CHR ''&'' # name @ wr) =
         Inr (Parsed (int (length items) + 2) kw argv) \<and>
         length argv = ARGUMENT_ARRAY_MAX_SIZE cfg \<and>
         take (length items + 2) argv = map Some (?as @ [a', CHR ''&'' # name])"
    by blast
qed


theorem parse_line_splits_witness:
  "(\<exists>argv. parse_line sample_config ''line x0mm;y0mm, w10mm'' = Inr (Parsed 2 ''line'' argv) \<and>
      length argv = 8 \<and> take 2 argv = [Some ''x0mm;y0mm'', Some ''w10mm'']) \<and>
   (\<exists>argv. parse_line sample_config ''line x0mm;y0mm, w10mm = &wall1'' =
        Inr (Parsed 3 ''line'' argv) \<and>
      length argv = 8 \<and> take 3 argv = [Some ''x0mm;y0mm'', Some ''w10mm'', Some ''&wall1''])"
proof -
  have kw: "\<forall>c\<in>set ''line''. \<not> isspace c \<and> c \<noteq> CHR ''#''"
    "length ''line'' < COMMAND_MAX_SIZE sample_config" "length ''line'' < 65536"
    by (simp_all add: isspace_def sample_config_def)
  have sep: "CHR '' '' = CHR '' '' \<or> CHR '' '' = CHR 0x09"
    by simp
  have items: "\<forall>(l, a, r)\<in>set ([([], ''x0mm;y0mm'', [])] @ [('' '', ''w10mm'', r')]).
      set l \<subseteq> {CHR '' '', CHR 0x09} \<and> set r \<subseteq> {CHR '' '', CHR 0x09} \<and>
      a \<noteq> [] \<and> (\<forall>c\<in>set a. \<not> isspace c \<and> c \<noteq> CHR '','' \<and> c \<noteq> CHR ''='' \<and> c \<noteq> CHR ''#'') \<and>
      length a < ARGUMENT_MAX_SIZE sample_config \<and> length a < 65536"
    if "r' = [] \<or> r' = '' ''" for r'
    using that by (auto simp: isspace_def sample_config_def)
  have cap: "length [([]::string, ''x0mm;y0mm'', []::string)] + 2 \<le> ARGUMENT_ARRAY_MAX_SIZE sample_config \<and>
      set '' '' \<subseteq> {CHR '' '', CHR 0x09} \<and> set [] \<subseteq> {CHR '' '', CHR 0x09} \<and>
      (\<forall>c\<in>set ''wall1''. \<not> isspace c \<and> c \<noteq> CHR ''#'') \<and>
      Suc (length ''wall1'') < ARGUMENT_MAX_SIZE sample_config \<and> Suc (length ''wall1'') < 65536"
    by (simp add: isspace_def sample_config_def)
  have count: "length [([]::string, ''x0mm;y0mm'', []::string)] + 1 \<le> ARGUMENT_ARRAY_MAX_SIZE sample_config"
    by (simp add: sample_config_def)
  show ?thesis
    using parse_line_splits [OF kw sep items, of "[]" "'' ''" "[]" "''wall1''"]
      parse_line_splits [OF kw sep items, of "'' ''" "'' ''" "[]" "''wall1''"] cap count
    by (simp add: sample_config_def numeral_2_eq_2 numeral_3_eq_3)
qed

subsection \<open>Comments\<close>

lemma parse_line_loop_comment:
  "parse_line_loop cfg stg cur_cpos argc cur_arg raw command arguments (pre @ CHR ''#'' # post) =
   parse_line_loop cfg stg cur_cpos argc cur_arg raw command arguments pre"
proof (induction pre arbitrary: stg cur_cpos argc cur_arg raw command arguments)
  case Nil
  show ?case by simp
next
  case (Cons c pre)
  show ?case
    by (cases stg) (simp_all add: Cons.IH Let_def split: sum.split option.split prod.split)
qed

lemma replicate_8: "replicate 8 x = [x, x, x, x, x, x, x, x]"
  by (simp add: numeral_eq_Suc)

text \<open>
  C9, as the code has it. The test for \<open>#\<close> comes before the switch on the stage, so a
  \<open>#\<close> anywhere in the line, the capture variable tail included, ends the scan: the line
  is tokenized as the text before the \<open>#\<close> is.
\<close>

theorem parse_line_comment_truncates:
  "parse_line cfg (pre @ CHR ''#'' # post) = parse_line cfg pre"
  by (simp add: parse_line_def parse_line_loop_comment)

theorem parse_line_comment_truncates_witness:
  "parse_line sample_config (''line x0mm;y0mm, w10mm '' @ CHR ''#'' # '' = &wall1'') =
     Inr (Parsed 2 ''line''
       [Some ''x0mm;y0mm'', Some ''w10mm'', None, None, None, None, None, None])"
  using parse_line_comment_truncates
    [of sample_config "''line x0mm;y0mm, w10mm ''" "'' = &wall1''"]
  by (simp add: parse_line_def parse_line_finish_def put_def chomp_def isspace_def
      store_argument_def poke_def sample_config_def replicate_8)

text \<open>C9 as stated fails: the capture variable tail is no exception. A \<open>#\<close> inside the
  tail cuts the variable name, here to \<open>&wa\<close>.\<close>

theorem parse_line_comment_in_tail_counterexample:
  "parse_line sample_config ''line x0mm;y0mm, w10mm = &wa#ll1'' =
     Inr (Parsed 3 ''line''
       [Some ''x0mm;y0mm'', Some ''w10mm'', Some ''&wa'', None, None, None, None, None])"
  by (simp add: parse_line_def parse_line_finish_def put_def chomp_def isspace_def
      store_argument_def poke_def sample_config_def replicate_8)

subsection \<open>Object keywords without a construction rule\<close>

text \<open>
  C5 fails on the code. \<open>rect\<close> and \<open>circle\<close> are valid object keywords,
  \<open>create_object\<close> has no case for their types, and the object is appended with only
  its type set: \<open>parse_command\<close> returns true and the object container is one longer.
\<close>

theorem parse_command_rect_appends:
  assumes "6 < COMMAND_MAX_SIZE cfg" and "9 < ARGUMENT_MAX_SIZE cfg"
    and "2 \<le> ARGUMENT_ARRAY_MAX_SIZE cfg" and "TYPE_LINE cfg = 1"
  shows "parse_command cfg st ''rect x0mm;y0mm, x1mm;y1mm'' =
       Inr (True, st\<lparr>objects := objects st @
                         [\<lparr>obj_type = 2, coord_count = None, coord = None\<rparr>]\<rparr>) \<and>
     parse_command cfg st ''circle x0mm;y0mm, x1mm;y1mm'' =
       Inr (True, st\<lparr>objects := objects st @
                         [\<lparr>obj_type = 3, coord_count = None, coord = None\<rparr>]\<rparr>)"
proof -
  let ?argv = "(replicate (ARGUMENT_ARRAY_MAX_SIZE cfg) None)
      [0 := Some ''x0mm;y0mm'', 1 := Some ''x1mm;y1mm'']"
  have rect: "parse_line cfg ''rect x0mm;y0mm, x1mm;y1mm'' = Inr (Parsed 2 ''rect'' ?argv)"
    using assms
    by (simp add: parse_line_def parse_line_finish_def put_def chomp_def isspace_def
        store_argument_def poke_def)
  have circle: "parse_line cfg ''circle x0mm;y0mm, x1mm;y1mm'' = Inr (Parsed 2 ''circle'' ?argv)"
    using assms
    by (simp add: parse_line_def parse_line_finish_def put_def chomp_def isspace_def
        store_argument_def poke_def)
  have "parse_command cfg st ''rect x0mm;y0mm, x1mm;y1mm'' =
       Inr (True, st\<lparr>objects := objects st @
                         [\<lparr>obj_type = 2, coord_count = None, coord = None\<rparr>]\<rparr>)"
    using assms rect
    by (simp add: parse_command_def is_obj_command_def valid_objects_def create_object_def
        fill_object_def argument_def)
  moreover have "parse_command cfg st ''circle x0mm;y0mm, x1mm;y1mm'' =
       Inr (True, st\<lparr>objects := objects st @
                         [\<lparr>obj_type = 3, coord_count = None, coord = None\<rparr>]\<rparr>)"
    using assms circle
    by (simp add: parse_command_def is_obj_command_def valid_objects_def create_object_def
        fill_object_def argument_def)
  ultimately show ?thesis by simp
qed

theorem parse_command_rect_appends_witness:
  "(6 < COMMAND_MAX_SIZE sample_config \<and> 9 < ARGUMENT_MAX_SIZE sample_config \<and>
    2 \<le> ARGUMENT_ARRAY_MAX_SIZE sample_config \<and> TYPE_LINE sample_config = 1) \<and>
   parse_command sample_config nanocad_init ''rect x0mm;y0mm, x1mm;y1mm'' =
     Inr (True, \<lparr>objects = [\<lparr>obj_type = 2, coord_count = None, coord = None\<rparr>],
                 variables = []\<rparr>) \<and>
   parse_command sample_config nanocad_init ''circle x0mm;y0mm, x1mm;y1mm'' =
     Inr (True, \<lparr>objects = [\<lparr>obj_type = 3, coord_count = None, coord = None\<rparr>],
                 variables = []\<rparr>)"
proof -
  have a: "6 < COMMAND_MAX_SIZE sample_config" "9 < ARGUMENT_MAX_SIZE sample_config"
    "2 \<le> ARGUMENT_ARRAY_MAX_SIZE sample_config" "TYPE_LINE sample_config = 1"
    by (simp_all add: sample_config_def)
  show ?thesis
    using a parse_command_rect_appends [OF a, of nanocad_init]
    by (simp add: nanocad_init_def)
qed

subsection \<open>The unit converter\<close>

lemma letter_not_number: "is_letter c \<Longrightarrow> \<not> is_number_char c"
  by (simp add: is_letter_def is_number_char_def)

text \<open>The numeral state copies a run of accepted characters that fits the buffer.\<close>

lemma number_loop:
  "list_all is_number_char num \<Longrightarrow> p + length num < ARGUMENT_MAX_SIZE cfg \<Longrightarrow>
   p + length num < 256 \<Longrightarrow>
   to_base_unit_loop cfg PARSING_NUMBER p strnum unit (num @ rest) =
   to_base_unit_loop cfg PARSING_NUMBER (p + length num)
     (if num = [] then strnum
      else Some (take p (case strnum of None \<Rightarrow> [] | Some s \<Rightarrow> s) @ num)) unit rest"
proof (induction num arbitrary: p strnum)
  case Nil
  then show ?case by simp
next
  case (Cons c num)
  let ?buf = "case strnum of None \<Rightarrow> [] | Some s \<Rightarrow> s"
  have p: "put 256 (ARGUMENT_MAX_SIZE cfg) ?buf p c = Inr (take p ?buf @ [c], p + 1)"
    using Cons.prems by (intro put_ok) simp_all
  have "to_base_unit_loop cfg PARSING_NUMBER (p + 1) (Some (take p ?buf @ [c])) unit (num @ rest) =
      to_base_unit_loop cfg PARSING_NUMBER (p + 1 + length num)
        (if num = [] then Some (take p ?buf @ [c])
         else Some (take (p + 1) (take p ?buf @ [c]) @ num)) unit rest"
    using Cons.prems Cons.IH [of "p + 1" "Some (take p ?buf @ [c])"] by simp
  then show ?case using Cons.prems by (simp add: p)
qed

text \<open>
  The supported units: a non-empty numeral of accepted characters with no unit or with
  \<open>mm\<close> is converted by \<open>atof\<close> and cast; with \<open>cm\<close> it is multiplied by 10 and with \<open>m\<close>
  by 1000 before the cast.
\<close>

lemma to_base_unit_scaled:
  assumes "num \<noteq> []" and "list_all is_number_char num"
    and "length num < ARGUMENT_MAX_SIZE cfg" and "length num < 256"
  shows "to_base_unit cfg num = long_cast cfg (atof cfg num)"
    and "to_base_unit cfg (num @ ''mm'') = long_cast cfg (atof cfg num)"
    and "to_base_unit cfg (num @ ''cm'') = long_cast cfg (mul_double cfg (atof cfg num) 10)"
    and "to_base_unit cfg (num @ ''m'') = long_cast cfg (mul_double cfg (atof cfg num) 1000)"
  using assms number_loop [of num 0 cfg None "[]" "[]"]
    number_loop [of num 0 cfg None "[]" "''mm''"]
    number_loop [of num 0 cfg None "[]" "''cm''"]
    number_loop [of num 0 cfg None "[]" "''m''"]
  by (simp_all add: to_base_unit_def is_number_char_def is_letter_def put_def)

text \<open>Any other unit of one or two lowercase letters reaches the exit for an invalid
  unit; a third letter does not fit \<^verbatim>\<open>char unit[3]\<close>; a character outside the class of
  the current state reaches the exit of that state.\<close>

lemma to_base_unit_unknown_unit:
  assumes "num \<noteq> []" and "list_all is_number_char num"
    and "length num < ARGUMENT_MAX_SIZE cfg" and "length num < 256"
    and "is_letter a" and "is_letter b"
  shows "a \<noteq> CHR ''m'' \<Longrightarrow> to_base_unit cfg (num @ [a]) = Inl (Exit_Invalid_Unit [a])"
    and "[a, b] \<noteq> ''cm'' \<Longrightarrow> [a, b] \<noteq> ''mm'' \<Longrightarrow>
         to_base_unit cfg (num @ [a, b]) = Inl (Exit_Invalid_Unit [a, b])"
  using assms number_loop [of num 0 cfg None "[]" "[a]"]
    number_loop [of num 0 cfg None "[]" "[a, b]"]
  by (auto simp: to_base_unit_def put_def letter_not_number Let_def)

lemma to_base_unit_long_unit:
  assumes "is_letter a" and "is_letter b" and "is_letter c"
  shows "to_base_unit_loop cfg PARSING_NUMBER p strnum [] (a # b # c # rest) = Inl Undefined"
  using assms by (simp add: put_def letter_not_number)

lemma to_base_unit_rejects:
  shows "\<not> is_number_char c \<Longrightarrow> \<not> is_letter c \<Longrightarrow>
     to_base_unit_loop cfg PARSING_NUMBER p strnum unit (c # rest) = Inl (Exit_Invalid_Number_Char c)"
    and "\<not> is_letter c \<Longrightarrow>
     to_base_unit_loop cfg PARSING_UNIT p strnum unit (c # rest) = Inl (Exit_Invalid_Unit_Char c)"
  by simp_all

text \<open>
  C1 fails on the code at \<open>10xyz\<close>. The unit buffer is \<^verbatim>\<open>char unit[3]\<close>; the third
  letter is written to \<^verbatim>\<open>unit[2]\<close> and its terminator to \<^verbatim>\<open>unit[3]\<close>, outside the buffer,
  before the comparison that would report the invalid unit is reached. This holds for
  every size of the numeral buffer.
\<close>

theorem to_base_unit_three_letter_unit:
  "to_base_unit cfg ''10xyz'' = Inl Undefined"
  by (simp add: to_base_unit_def put_def is_number_char_def is_letter_def)

text \<open>
  The character classes of the two states. The numeral state tests the character codes
  \<^verbatim>\<open>0x30\<close> to \<^verbatim>\<open>0x39\<close> and \<^verbatim>\<open>0x2B\<close> to \<^verbatim>\<open>0x2E\<close>; the second range holds the comma
  besides \<open>+\<close>, \<open>-\<close> and the point, so a direct call on \<open>1,5\<close> scans it as a numeral.
\<close>

lemma to_base_unit_accepts_comma:
  "3 < ARGUMENT_MAX_SIZE cfg \<Longrightarrow>
   is_number_char (CHR '','') \<and>
   to_base_unit_loop cfg PARSING_NUMBER 0 None [] ''1,5'' = Inr (Some ''1,5'', []) \<and>
   to_base_unit cfg ''1,5'' = long_cast cfg (atof cfg ''1,5'')"
  by (simp add: to_base_unit_def put_def is_number_char_def is_letter_def)























lemma parse_coordinates_loop_capture:
  "parse_coordinates_loop cfg PARSING_START p operation coord_x coord_y (CHR ''&'' # arg) =
   Inl (Exit_Unknown_First_Coordinate_Letter (CHR ''&''))"
  by simp





subsection \<open>The limits of the tokenizer\<close>

lemma capture_overflow:
  "0 < p \<Longrightarrow> p < ARGUMENT_MAX_SIZE cfg \<Longrightarrow> ARGUMENT_MAX_SIZE cfg < 65536 \<Longrightarrow>
   ARGUMENT_MAX_SIZE cfg \<le> p + n \<Longrightarrow>
   parse_line_loop cfg PARSING_SET_OBJVAR p argc (Some a) raw command arguments
     (replicate n (CHR ''a'')) = Inl Undefined"
proof (induction n arbitrary: p a)
  case 0
  then show ?case by simp
next
  case (Suc n)
  show ?case
  proof (cases "p + 1 < ARGUMENT_MAX_SIZE cfg")
    case True
    then have "put 65536 (ARGUMENT_MAX_SIZE cfg) a p (CHR ''a'') = Inr (take p a @ ''a'', p + 1)"
      using Suc.prems by (intro put_ok) simp_all
    moreover have "parse_line_loop cfg PARSING_SET_OBJVAR (p + 1) argc (Some (take p a @ ''a'')) raw
        command arguments (replicate n (CHR ''a'')) = Inl Undefined"
      using True Suc.prems by (intro Suc.IH) simp_all
    ultimately show ?thesis using Suc.prems by simp
  next
    case False
    then have "put 65536 (ARGUMENT_MAX_SIZE cfg) a p (CHR ''a'') = Inl Undefined"
      using Suc.prems by (simp add: put_def)
    then show ?thesis using Suc.prems by simp
  qed
qed

lemma arguments_overflow:
  "p < ARGUMENT_MAX_SIZE cfg \<Longrightarrow> ARGUMENT_MAX_SIZE cfg < 65536 \<Longrightarrow>
   ARGUMENT_MAX_SIZE cfg \<le> p + n \<Longrightarrow>
   parse_line_loop cfg PARSING_ARGUMENTS p argc cur_arg raw command arguments
     (replicate n (CHR ''a'')) = Inr (Failed Argument_Size_Exceeded)"
proof (induction n arbitrary: p argc cur_arg)
  case 0
  then show ?case by simp
next
  case (Suc n)
  show ?case
  proof (cases "p + 1 < ARGUMENT_MAX_SIZE cfg")
    case True
    then have "put 65536 (ARGUMENT_MAX_SIZE cfg) (case cur_arg of None \<Rightarrow> [] | Some a \<Rightarrow> a) p (CHR ''a'')
        = Inr (take p (case cur_arg of None \<Rightarrow> [] | Some a \<Rightarrow> a) @ ''a'', p + 1)"
      using Suc.prems by (intro put_ok) simp_all
    moreover have "parse_line_loop cfg PARSING_ARGUMENTS (p + 1) argc' (Some a') raw
        command arguments (replicate n (CHR ''a'')) = Inr (Failed Argument_Size_Exceeded)" for argc' a'
      using True Suc.prems by (intro Suc.IH) simp_all
    ultimately show ?thesis using True by (simp add: Let_def)
  next
    case False
    then show ?thesis by (simp add: Let_def)
  qed
qed

text \<open>
  C7 fails on the code for the capture variable. The stage \<^verbatim>\<open>PARSING_SET_OBJVAR\<close> appends
  to \<open>cur_arg\<close> without the test \<^verbatim>\<open>(cur_cpos + 1) < ARGUMENT_MAX_SIZE\<close> that the stage
  \<^verbatim>\<open>PARSING_ARGUMENTS\<close> makes: a capture variable of \<^verbatim>\<open>ARGUMENT_MAX_SIZE\<close> characters or
  more (the \<open>&\<close> and \<open>n\<close> letters) is written past the end of the buffer, where an
  ordinary argument of that length makes \<open>parse_line\<close> return -1.
\<close>

theorem parse_line_capture_overflow:
  assumes "4 < COMMAND_MAX_SIZE cfg" and "9 < ARGUMENT_MAX_SIZE cfg"
    and "ARGUMENT_MAX_SIZE cfg < 65536" and "3 \<le> ARGUMENT_ARRAY_MAX_SIZE cfg"
    and "ARGUMENT_MAX_SIZE cfg \<le> Suc n"
  shows "parse_line cfg (''line x0mm;y0mm, w10mm = &'' @ replicate n (CHR ''a'')) = Inl Undefined \<and>
         parse_line cfg (''line x0mm;y0mm, w10mm, a'' @ replicate n (CHR ''a'')) =
           Inr (Failed Argument_Size_Exceeded)"
  using assms
  by (simp add: parse_line_def parse_line_finish_def put_def chomp_def isspace_def
        store_argument_def poke_def capture_overflow arguments_overflow)


theorem parse_line_capture_overflow_witness:
  "(4 < COMMAND_MAX_SIZE sample_config \<and> 9 < ARGUMENT_MAX_SIZE sample_config \<and>
    ARGUMENT_MAX_SIZE sample_config < 65536 \<and> 3 \<le> ARGUMENT_ARRAY_MAX_SIZE sample_config \<and>
    ARGUMENT_MAX_SIZE sample_config \<le> Suc 31) \<and>
   parse_line sample_config (''line x0mm;y0mm, w10mm = &'' @ replicate 31 (CHR ''a'')) =
     Inl Undefined \<and>
   parse_line sample_config (''line x0mm;y0mm, w10mm, a'' @ replicate 31 (CHR ''a'')) =
     Inr (Failed Argument_Size_Exceeded)"
proof -
  have a: "4 < COMMAND_MAX_SIZE sample_config" "9 < ARGUMENT_MAX_SIZE sample_config"
    "ARGUMENT_MAX_SIZE sample_config < 65536" "3 \<le> ARGUMENT_ARRAY_MAX_SIZE sample_config"
    "ARGUMENT_MAX_SIZE sample_config \<le> Suc 31"
    by (simp_all add: sample_config_def)
  show ?thesis
    using a parse_line_capture_overflow [OF a] by simp
qed

text \<open>The capture variable is also stored without the test on the argument count: after
  as many arguments as the array holds, it is written behind the array.\<close>

lemma parse_line_capture_after_full_array:
  "parse_line sample_config ''line a,b,c,d,e,f,g,h = &v'' = Inl Undefined"
  by (simp add: parse_line_def parse_line_finish_def put_def chomp_def isspace_def
        store_argument_def poke_def sample_config_def)


subsection \<open>The object container\<close>

lemma set_variable_objects:
  "set_variable cfg st name val = Inr st' \<Longrightarrow> objects st' = objects st"
  by (auto simp: set_variable_def split: list.splits sum.splits if_splits option.splits)

lemma create_object_objects:
  "create_object cfg st type argc argv = Inr st' \<Longrightarrow> \<exists>obj. objects st' = objects st @ [obj]"
  by (auto simp: create_object_def Let_def dest!: set_variable_objects
      split: sum.splits if_splits option.splits)

lemma parse_command_failed:
  "parse_command cfg st l = Inr (False, st') \<Longrightarrow> st' = st"
  by (auto simp: parse_command_def split: if_splits sum.splits line_result.splits)

lemma parse_command_line_keyword:
  assumes "parse_command cfg st l = Inr (True, st')"
    and "l \<noteq> []" and "hd l \<noteq> CHR ''#''"
    and "parse_line cfg l = Inr (Parsed argc ''line'' argv)"
  shows "\<exists>obj. objects st' = objects st @ [obj]"
proof -
  have "is_obj_command ''line'' = 1"
    by (simp add: is_obj_command_def valid_objects_def)
  then have "create_object cfg st 1 argc argv = Inr st'"
    using assms by (simp add: parse_command_def split: sum.splits)
  then show ?thesis by (rule create_object_objects)
qed

lemma dispatch_all_length:
  "dispatch_all cfg st ls = Inr rs \<Longrightarrow> length rs = length ls"
  by (induction ls arbitrary: st rs) (auto split: sum.splits)

lemma dispatch_all_step:
  "dispatch_all cfg st ls = Inr rs \<Longrightarrow> j < length rs \<Longrightarrow>
   parse_command cfg (if j = 0 then st else snd (rs ! (j - 1))) (ls ! j) = Inr (rs ! j)"
proof (induction ls arbitrary: st rs j)
  case Nil
  then show ?case by simp
next
  case (Cons l ls)
  from Cons.prems(1) obtain ok st1 rs1 where
    pc: "parse_command cfg st l = Inr (ok, st1)" and
    d: "dispatch_all cfg st1 ls = Inr rs1" and
    rs: "rs = (ok, st1) # rs1"
    by (auto split: sum.splits)
  show ?case
  proof (cases j)
    case 0
    then show ?thesis using pc rs by simp
  next
    case (Suc k)
    then have k: "k < length rs1" using Cons.prems(2) rs by simp
    have "parse_command cfg (if k = 0 then st1 else snd (rs1 ! (k - 1))) (ls ! k) = Inr (rs1 ! k)"
      using d k by (rule Cons.IH)
    then show ?thesis using Suc rs by (cases k) simp_all
  qed
qed

text \<open>
  C6. Let a driver call \<open>parse_command\<close> on the lines \<open>ls\<close> one after the other,
  starting in \<open>st\<close>, with results \<open>rs\<close>, and let every call that returned true be on a
  line whose keyword is \<open>line\<close>; the other calls failed. Then after line \<open>j\<close> the
  object container holds the objects it started with and one object per successful
  call so far, and the container after any earlier line is a prefix of it: each object
  keeps the index it was created at, which is the number of objects before it. From
  the empty container the objects of \<open>N\<close> successful commands are at \<open>0..N-1\<close> in the
  order of creation.
\<close>

theorem object_indices_in_creation_order:
  assumes run: "dispatch_all cfg st ls = Inr rs"
    and lines: "\<forall>j<length ls. fst (rs ! j) \<longrightarrow>
        ls ! j \<noteq> [] \<and> hd (ls ! j) \<noteq> CHR ''#'' \<and>
        (\<exists>argc argv. parse_line cfg (ls ! j) = Inr (Parsed argc ''line'' argv))"
  shows "length rs = length ls \<and>
     (\<forall>j<length rs.
        length (objects (snd (rs ! j))) = length (objects st) + length (filter fst (take (Suc j) rs)) \<and>
        prefix (objects st) (objects (snd (rs ! j))) \<and>
        (\<forall>i\<le>j. prefix (objects (snd (rs ! i))) (objects (snd (rs ! j)))))"
proof -
  have len: "length rs = length ls"
    using run by (rule dispatch_all_length)
  let ?prev = "\<lambda>j. if j = 0 then st else snd (rs ! (j - 1))"
  have step: "objects (snd (rs ! j)) = objects (?prev j) \<or>
      (fst (rs ! j) \<and> (\<exists>obj. objects (snd (rs ! j)) = objects (?prev j) @ [obj]))"
    and step_false: "\<not> fst (rs ! j) \<Longrightarrow> objects (snd (rs ! j)) = objects (?prev j)"
    and step_true: "fst (rs ! j) \<Longrightarrow> \<exists>obj. objects (snd (rs ! j)) = objects (?prev j) @ [obj]"
    if j: "j < length rs" for j
  proof -
    have pc: "parse_command cfg (?prev j) (ls ! j) = Inr (fst (rs ! j), snd (rs ! j))"
      using dispatch_all_step [OF run j] by simp
    show f: "\<not> fst (rs ! j) \<Longrightarrow> objects (snd (rs ! j)) = objects (?prev j)"
      using pc parse_command_failed [of cfg "?prev j" "ls ! j" "snd (rs ! j)"] by auto
    show t: "fst (rs ! j) \<Longrightarrow> \<exists>obj. objects (snd (rs ! j)) = objects (?prev j) @ [obj]"
    proof -
      assume ok: "fst (rs ! j)"
      then obtain argc argv where
        "ls ! j \<noteq> []" "hd (ls ! j) \<noteq> CHR ''#''"
        "parse_line cfg (ls ! j) = Inr (Parsed argc ''line'' argv)"
        using lines j len by auto
      then show ?thesis
        using pc ok parse_command_line_keyword [of cfg "?prev j" "ls ! j" "snd (rs ! j)" argc argv]
        by simp
    qed
    show "objects (snd (rs ! j)) = objects (?prev j) \<or>
      (fst (rs ! j) \<and> (\<exists>obj. objects (snd (rs ! j)) = objects (?prev j) @ [obj]))"
      using f t by blast
  qed
  have count: "length (objects (snd (rs ! j))) =
      length (objects st) + length (filter fst (take (Suc j) rs))" if "j < length rs" for j
    using that
  proof (induction j)
    case 0
    then have "take (Suc 0) rs = [rs ! 0]"
      by (cases rs) simp_all
    then show ?case
      using step_false [OF 0] step_true [OF 0] by (cases "fst (rs ! 0)") auto
  next
    case (Suc j)
    have t: "take (Suc (Suc j)) rs = take (Suc j) rs @ [rs ! Suc j]"
      using Suc.prems by (simp add: take_Suc_conv_app_nth)
    have "length (objects (snd (rs ! j))) =
        length (objects st) + length (filter fst (take (Suc j) rs))"
      using Suc by simp
    then show ?case
      using step_false [OF Suc.prems] step_true [OF Suc.prems] t
      by (cases "fst (rs ! Suc j)") auto
  qed
  have grow: "prefix (objects (?prev j)) (objects (snd (rs ! j)))" if "j < length rs" for j
    using step [OF that] by (auto simp: prefix_def)
  have from_start: "prefix (objects st) (objects (snd (rs ! j)))" if "j < length rs" for j
    using that
  proof (induction j)
    case 0
    then show ?case using grow [of 0] by simp
  next
    case (Suc j)
    then have "prefix (objects st) (objects (snd (rs ! j)))" by simp
    moreover have "prefix (objects (snd (rs ! j))) (objects (snd (rs ! Suc j)))"
      using grow [OF Suc.prems] by simp
    ultimately show ?case by (rule prefix_order.trans)
  qed
  have earlier: "prefix (objects (snd (rs ! i))) (objects (snd (rs ! j)))"
    if "j < length rs" "i \<le> j" for i j
    using that
  proof (induction j)
    case 0
    then show ?case by simp
  next
    case (Suc j)
    show ?case
    proof (cases "i = Suc j")
      case True
      then show ?thesis by simp
    next
      case False
      then have "prefix (objects (snd (rs ! i))) (objects (snd (rs ! j)))"
        using Suc by simp
      moreover have "prefix (objects (snd (rs ! j))) (objects (snd (rs ! Suc j)))"
        using grow [OF Suc.prems(1)] by simp
      ultimately show ?thesis by (rule prefix_order.trans)
    qed
  qed
  show ?thesis
    using len count from_start earlier by blast
qed


lemma decimal_0: "decimal 0 = ''0''"
  by (simp add: decimal.simps char_of_def bit_0)

lemmas command_eval =
  parse_command_def parse_line_def parse_line_finish_def chomp_def store_argument_def poke_def
  is_obj_command_def valid_objects_def create_object_def fill_object_def argument_def
  set_variable_def sscanf_zu_def snprintf_lu_def decimal_0 parse_coordinates_def
  calc_coordinate_def long_add_def nanocad_init_def replicate_8 Let_def

theorem object_indices_in_creation_order_witness:
  "\<exists>rs. dispatch_all sample_config nanocad_init
          [''line x0mm;y0mm, w10mm=&a'', ''triangle 1'', ''line x5mm;y5mm, h20mm''] = Inr rs \<and>
        map fst rs = [True, False, True] \<and>
        map (\<lambda>r. length (objects (snd r))) rs = [1, 1, 2] \<and>
        (\<forall>j<length rs. \<forall>i\<le>j. prefix (objects (snd (rs ! i))) (objects (snd (rs ! j))))"
proof -
  let ?l0 = "\<lparr>obj_type = 1, coord_count = Some 2,
               coord = Some [\<lparr>X = 0, Y = 0\<rparr>, \<lparr>X = 10, Y = 0\<rparr>]\<rparr>"
  let ?l1 = "\<lparr>obj_type = 1, coord_count = Some 2,
               coord = Some [\<lparr>X = 5, Y = 5\<rparr>, \<lparr>X = 5, Y = 25\<rparr>]\<rparr>"
  let ?vs = "[\<lparr>var_type = CHR ''&'', var_name = ''a'', var_value = Object_Index 0 :: rat var_value\<rparr>]"
  let ?rs = "[(True, \<lparr>objects = [?l0], variables = ?vs\<rparr>),
              (False, \<lparr>objects = [?l0], variables = ?vs\<rparr>),
              (True, \<lparr>objects = [?l0, ?l1], variables = ?vs\<rparr>)]"
  let ?ls = "[''line x0mm;y0mm, w10mm=&a'', ''triangle 1'', ''line x5mm;y5mm, h20mm'']"
  have run: "dispatch_all sample_config nanocad_init ?ls = Inr ?rs"
    by (simp add: command_eval sample_eval)
  have first: "\<exists>argc argv. parse_line sample_config ''line x0mm;y0mm, w10mm=&a'' =
      Inr (Parsed argc ''line'' argv)"
    by (simp add: command_eval sample_eval)
  have third: "\<exists>argc argv. parse_line sample_config ''line x5mm;y5mm, h20mm'' =
      Inr (Parsed argc ''line'' argv)"
    by (simp add: command_eval sample_eval)
  have lines: "\<forall>j<length ?ls. fst (?rs ! j) \<longrightarrow>
        ?ls ! j \<noteq> [] \<and> hd (?ls ! j) \<noteq> CHR ''#'' \<and>
        (\<exists>argc argv. parse_line sample_config (?ls ! j) = Inr (Parsed argc ''line'' argv))"
    using first third by (simp add: less_Suc_eq numeral_3_eq_3 nth_Cons')
  show ?thesis
    using object_indices_in_creation_order [OF run lines] run by simp
qed

subsection \<open>Empty lines and comment lines\<close>

text \<open>
  C10. For every line that is empty or whose first character is \<open>#\<close>, \<open>parse_command\<close>
  returns true and leaves the state as it was: the object container and the variable
  container are both unchanged.
\<close>

theorem parse_command_skips_empty_and_comment:
  "line = [] \<or> hd line = CHR ''#'' \<Longrightarrow> parse_command cfg st line = Inr (True, st)"
  by (simp add: parse_command_def)

theorem parse_command_skips_empty_and_comment_witness:
  "(''# sample'' = [] \<or> hd ''# sample'' = CHR ''#'') \<and>
   parse_command sample_config
     \<lparr>objects = [\<lparr>obj_type = 1, coord_count = Some 2,
                   coord = Some [\<lparr>X = 0, Y = 0\<rparr>, \<lparr>X = 10, Y = 0\<rparr>]\<rparr>],
      variables = [\<lparr>var_type = CHR ''&'', var_name = ''a'', var_value = Object_Index 0\<rparr>]\<rparr>
     ''# sample'' =
   Inr (True,
     \<lparr>objects = [\<lparr>obj_type = 1, coord_count = Some 2,
                   coord = Some [\<lparr>X = 0, Y = 0\<rparr>, \<lparr>X = 10, Y = 0\<rparr>]\<rparr>],
      variables = [\<lparr>var_type = CHR ''&'', var_name = ''a'', var_value = Object_Index 0\<rparr>]\<rparr>)"
  using parse_command_skips_empty_and_comment [of "''# sample''" sample_config]
  by simp

end
